theory Spec2Isabelle
  imports Main "HOL-Library.Word" "HOL-Library.Sublist" "HOL-Library.Multiset"
begin

section \<open>The dbtester agent: process lifecycle controller and upload pipeline\<close>

text \<open>
  A shallow embedding of \<^verbatim>\<open>agent/agent.go\<close> (the gRPC method \<^verbatim>\<open>Transfer\<close>, the
  monitoring goroutine and its \<^verbatim>\<open>uploadFunc\<close>) and of the Google Cloud Storage uploader
  of package \<^verbatim>\<open>remotestorage\<close> (\<^verbatim>\<open>NewGoogleCloudStorage\<close>, \<^verbatim>\<open>UploadDir\<close>).

  Go strings are byte strings: \<^typ>\<open>string\<close>. Every effect of the code on the operating
  system is an event of a trace, in the order the code performs it; every answer of the
  operating system that the code branches on is read from an oracle.
\<close>

subsection \<open>The functions of the Go standard library the code calls on strings\<close>

text \<open>\<^verbatim>\<open>strings.HasPrefix(s, prefix)\<close>; the deprecated \<^verbatim>\<open>filepath.HasPrefix\<close> is the same test.\<close>

definition strings_HasPrefix :: "string \<Rightarrow> string \<Rightarrow> bool" where
  "strings_HasPrefix s p = (take (length p) s = p)"

definition filepath_HasPrefix :: "string \<Rightarrow> string \<Rightarrow> bool" where
  "filepath_HasPrefix p pre = strings_HasPrefix p pre"

text \<open>\<^verbatim>\<open>strings.Join(elems, sep)\<close>.\<close>

fun strings_Join :: "string list \<Rightarrow> string \<Rightarrow> string" where
  "strings_Join [] sep = []"
| "strings_Join [x] sep = x"
| "strings_Join (x # y # ys) sep = x @ sep @ strings_Join (y # ys) sep"

text \<open>
  \<^verbatim>\<open>strings.Split(s, sep)\<close>: the pieces of \<open>s\<close> between the occurrences of \<open>sep\<close>, found from
  the left and not overlapping; always at least one piece. With an empty separator Go
  splits after each character.
\<close>

function split_from :: "string \<Rightarrow> string \<Rightarrow> string \<Rightarrow> string list" where
  "split_from sep acc [] = [acc]"
| "split_from sep acc (c # cs) =
     (if sep \<noteq> [] \<and> strings_HasPrefix (c # cs) sep
      then acc # split_from sep [] (drop (length sep) (c # cs))
      else split_from sep (acc @ [c]) cs)"
  by pat_completeness auto
termination
  by (relation "measure (\<lambda>(sep, acc, s). length s)") auto

definition strings_Split :: "string \<Rightarrow> string \<Rightarrow> string list" where
  "strings_Split s sep = (if sep = [] then map (\<lambda>c. [c]) s else split_from sep [] s)"

text \<open>\<^verbatim>\<open>strings.Contains(s, substr)\<close>.\<close>

fun strings_Contains :: "string \<Rightarrow> string \<Rightarrow> bool" where
  "strings_Contains [] sub = (sub = [])"
| "strings_Contains (c # cs) sub = (strings_HasPrefix (c # cs) sub \<or> strings_Contains cs sub)"

text \<open>The verb \<^verbatim>\<open>%d\<close> of \<^verbatim>\<open>fmt.Sprintf\<close>: decimal digits, a minus sign before a negative number.\<close>

definition digit_char :: "nat \<Rightarrow> char" where
  "digit_char d = ''0123456789'' ! (d mod 10)"

function showNat :: "nat \<Rightarrow> string" where
  "showNat n = (if n < 10 then [digit_char n] else showNat (n div 10) @ [digit_char (n mod 10)])"
  by pat_completeness auto
termination
  by (relation "measure (\<lambda>n. n)") auto

declare showNat.simps [simp del]

definition showInt :: "int \<Rightarrow> string" where
  "showInt i = (if i < 0 then CHR ''-'' # showNat (nat (- i)) else showNat (nat i))"

text \<open>
  \<^verbatim>\<open>filepath.Base(path)\<close> on Unix: trailing separators are removed, then the last element is
  taken; the empty path gives \<^verbatim>\<open>"."\<close> and a path of separators only gives \<^verbatim>\<open>"/"\<close>.
\<close>

fun strip_trailing_sep :: "string \<Rightarrow> string" where
  "strip_trailing_sep p = rev (dropWhile (\<lambda>c. c = CHR ''/'') (rev p))"

definition filepath_Base :: "string \<Rightarrow> string" where
  "filepath_Base p =
     (if p = [] then ''.''
      else let q = strip_trailing_sep p in
        if q = [] then ''/''
        else rev (takeWhile (\<lambda>c. c \<noteq> CHR ''/'') (rev q)))"

text \<open>
  \<^verbatim>\<open>filepath.Clean(path)\<close> on Unix, which works on the text of the path alone: empty
  elements and \<^verbatim>\<open>.\<close> elements are dropped, a \<^verbatim>\<open>..\<close> element removes the element before it
  when there is one that is not itself \<^verbatim>\<open>..\<close>, is dropped at the root, and is kept otherwise;
  the empty result is \<^verbatim>\<open>.\<close>.
\<close>

fun path_elems :: "string \<Rightarrow> string list" where
  "path_elems [] = [[]]"
| "path_elems (c # cs) =
     (if c = CHR ''/'' then [] # path_elems cs
      else (case path_elems cs of e # es \<Rightarrow> (c # e) # es | [] \<Rightarrow> [[c]]))"

definition clean_step :: "bool \<Rightarrow> string list \<Rightarrow> string \<Rightarrow> string list" where
  "clean_step rooted st e =
     (if e = [] \<or> e = ''.'' then st
      else if e = ''..'' then
        (if st \<noteq> [] \<and> last st \<noteq> ''..'' then butlast st
         else if rooted then st
         else st @ [''..''])
      else st @ [e])"

fun join_elems :: "string list \<Rightarrow> string" where
  "join_elems [] = []"
| "join_elems [e] = e"
| "join_elems (e # es) = e @ ''/'' @ join_elems es"

definition filepath_Clean :: "string \<Rightarrow> string" where
  "filepath_Clean p =
     (if p = [] then ''.''
      else let rooted = (hd p = CHR ''/'');
               st = foldl (clean_step rooted) [] (path_elems p)
           in if rooted then ''/'' @ join_elems st
              else if st = [] then ''.'' else join_elems st)"

text \<open>
  \<^verbatim>\<open>filepath.Join(a, b)\<close> on Unix for two elements: the elements from the first one that is
  not empty on are put together with a separator and the result is cleaned; two empty
  elements give the empty path.
\<close>

definition filepath_Join :: "string \<Rightarrow> string \<Rightarrow> string" where
  "filepath_Join a b =
     (if a \<noteq> [] then filepath_Clean (a @ ''/'' @ b)
      else if b \<noteq> [] then filepath_Clean b
      else [])"

subsection \<open>The destination name of an artifact\<close>

text \<open>
  \<^verbatim>\<open>uploadFunc\<close> derives the remote name of each of its four artifacts with the same three
  statements (agent.go, lines 547-551, 568-572, 590-594, 607-611):
  \<^verbatim>\<open>
  dst := filepath.Base(p)
  if !strings.HasPrefix(filepath.Base(p), t.req.TestName) {
      dst = fmt.Sprintf("%s-%d-%s", t.req.TestName, t.req.ServerIndex+1, filepath.Base(p))
  }
  dst = filepath.Join(t.req.GoogleCloudStorageSubDirectory, dst)
  \<close>
  \<open>dstPath\<close> is these statements as a function of the sub-directory, the test name, the
  server index and the base file name.
\<close>

definition dstPath :: "string \<Rightarrow> string \<Rightarrow> nat \<Rightarrow> string \<Rightarrow> string" where
  "dstPath subDirectory testName serverIndex base =
     (let dst = base;
          dst = (if \<not> strings_HasPrefix base testName
                 then testName @ ''-'' @ showNat (serverIndex + 1) @ ''-'' @ base
                 else dst)
      in filepath_Join subDirectory dst)"

subsection \<open>Requests and the state of the server\<close>

text \<open>
  Modelled from the spec: the types \<^verbatim>\<open>Request\<close>, \<^verbatim>\<open>Request_Operation\<close>,
  \<^verbatim>\<open>Request_Database\<close> and \<^verbatim>\<open>Response\<close> are generated from the protocol description into a
  file that is not among the sources. The constructors are the constants agent.go names;
  the fields are the ones agent.go reads. A Go enumeration is an integer type, so each
  enumeration has a constructor for the values without a name, which is what the
  \<^verbatim>\<open>default\<close> branches of agent.go are for. \<open>ServerIndex\<close> is the zero-based position of
  the spec, a natural number.
\<close>

datatype Request_Operation =
  Request_Start | Request_Stop | Request_UploadLog | Request_Operation_unnamed int

datatype Request_Database =
  Request_etcdv2 | Request_etcdv3 | Request_zetcd | Request_cetcd
  | Request_ZooKeeper | Request_Consul | Request_Database_unnamed int

text \<open>The \<^verbatim>\<open>String()\<close> method of a generated enumeration: the name, or the number in decimal.\<close>

fun Database_String :: "Request_Database \<Rightarrow> string" where
  "Database_String Request_etcdv2 = ''etcdv2''"
| "Database_String Request_etcdv3 = ''etcdv3''"
| "Database_String Request_zetcd = ''zetcd''"
| "Database_String Request_cetcd = ''cetcd''"
| "Database_String Request_ZooKeeper = ''ZooKeeper''"
| "Database_String Request_Consul = ''Consul''"
| "Database_String (Request_Database_unnamed n) = showInt n"

fun Operation_String :: "Request_Operation \<Rightarrow> string" where
  "Operation_String Request_Start = ''Start''"
| "Operation_String Request_Stop = ''Stop''"
| "Operation_String Request_UploadLog = ''UploadLog''"
| "Operation_String (Request_Operation_unnamed n) = showInt n"

record Request =
  Operation :: Request_Operation
  Database :: Request_Database
  PeerIPString :: string
  ServerIndex :: nat
  TestName :: string
  GoogleCloudProjectName :: string
  GoogleCloudStorageKey :: string
  GoogleCloudStorageBucketName :: string
  GoogleCloudStorageSubDirectory :: string
  ZookeeperMyID :: nat
  ZookeeperMaxClientCnxns :: "64 word"
  ZookeeperSnapCount :: "64 word"

record Response =
  Success :: bool

text \<open>
  \<^verbatim>\<open>*os.File\<close>: the path the file was opened at, and a number that tells two openings of
  one path apart. \<^verbatim>\<open>*exec.Cmd\<close>: the path of the binary, the argument vector (the binary
  first, as \<^verbatim>\<open>exec.Command\<close> builds it) and the file both output streams go to.
\<close>

datatype File = File (file_path: string) (file_id: nat)

record Cmd =
  Path :: string
  Args :: "string list"
  Stdout :: "File option"
  Stderr :: "File option"

definition exec_Command :: "string \<Rightarrow> string list \<Rightarrow> Cmd" where
  "exec_Command name arg = \<lparr>Path = name, Args = name # arg, Stdout = None, Stderr = None\<rparr>"

text \<open>\<^verbatim>\<open>type transporterServer struct\<close> (agent.go, line 157); a nil pointer is \<open>None\<close>.\<close>

record transporterServer =
  req :: Request
  cmd :: "Cmd option"
  logfile :: "File option"
  pid :: int
  proxyCmd :: "Cmd option"
  proxyLogfile :: "File option"
  proxyPid :: int

definition zero_Request :: Request where
  "zero_Request = \<lparr>Operation = Request_Start, Database = Request_etcdv2, PeerIPString = [],
     ServerIndex = 0, TestName = [], GoogleCloudProjectName = [], GoogleCloudStorageKey = [],
     GoogleCloudStorageBucketName = [], GoogleCloudStorageSubDirectory = [],
     ZookeeperMyID = 0, ZookeeperMaxClientCnxns = 0, ZookeeperSnapCount = 0\<rparr>"

text \<open>\<^verbatim>\<open>NewTransporterServer\<close>: the zero value of the struct.\<close>

definition NewTransporterServer :: transporterServer where
  "NewTransporterServer = \<lparr>req = zero_Request, cmd = None, logfile = None, pid = 0,
     proxyCmd = None, proxyLogfile = None, proxyPid = 0\<rparr>"

subsection \<open>Errors, events and the outside world\<close>

text \<open>
  An error the code makes itself is \<^verbatim>\<open>fmt.Errorf\<close> with its format and arguments; an error
  it passes on from a call into the operating system or a library is that error's
  message. A handler ends by returning a response, by returning an error, by a run-time
  panic (an index out of range), or not at all: \<open>Blocked\<close> is the handler waiting to send on
  the full channel \<^verbatim>\<open>uploadSig\<close>, where this model of one handler stops.
\<close>

datatype error = ExtError string | Errorf string "string list"

datatype 'a outcome = Ok 'a | Fail error | Panic string | Blocked

datatype log_level = LInfo | LError | LPrint

datatype arg = Str string | Num int | Err error

datatype event =
    EvLog log_level string "arg list"
  | EvSleep nat
  | EvTimer nat
  | EvToFile string string
  | EvRemoveAll string
  | EvOpenToAppend string
  | EvCmdStart Cmd
  | EvGoWait Cmd
  | EvChdir string
  | EvMkdirAll string
  | EvKill int
  | EvClose File
  | EvSync File
  | EvSend Request_Operation
  | EvReceive Request_Operation
  | EvGoMonitor int
  | EvProcessList int
  | EvWriteToCSV File
  | EvUploadFile string string string
  | EvSignal string

text \<open>
  The answers of the outside world. Each oracle is asked with the number of questions
  asked before (\<open>ticks\<close>), so that the same call may succeed once and fail later. An
  error is its message.

  Modelled from the spec: \<^verbatim>\<open>exist\<close>, \<^verbatim>\<open>toFile\<close> and \<^verbatim>\<open>openToAppend\<close> are helpers of package agent
  in a file that is not among the sources: whether a path exists, writing a text to a
  path, and opening a log destination in append mode.

  \<open>UploadFile_res\<close> is the method \<^verbatim>\<open>UploadFile\<close> of the interface \<^verbatim>\<open>remotestorage.Uploader\<close>,
  which is all \<^verbatim>\<open>uploadFunc\<close> knows of its uploader.
\<close>

record env =
  exist_res :: "nat \<Rightarrow> string \<Rightarrow> bool"
  toFile_res :: "nat \<Rightarrow> string \<Rightarrow> string \<Rightarrow> string option"
  RemoveAll_res :: "nat \<Rightarrow> string \<Rightarrow> string option"
  openToAppend_res :: "nat \<Rightarrow> string \<Rightarrow> string option"
  cmd_Start_res :: "nat \<Rightarrow> Cmd \<Rightarrow> string + int"
  Chdir_res :: "nat \<Rightarrow> string \<Rightarrow> string option"
  MkdirAll_res :: "nat \<Rightarrow> string \<Rightarrow> string option"
  Kill_res :: "nat \<Rightarrow> int \<Rightarrow> string option"
  process_List_res :: "nat \<Rightarrow> int \<Rightarrow> string + string list"
  WriteToCSV_res :: "nat \<Rightarrow> File \<Rightarrow> string list \<Rightarrow> string option"
  JWTConfigFromJSON_res :: "string \<Rightarrow> string + string"
  UploadFile_res :: "nat \<Rightarrow> string \<Rightarrow> string \<Rightarrow> string \<Rightarrow> string option"

text \<open>
  The package variables that \<^verbatim>\<open>Transfer\<close> rewrites (agent.go, lines 65-82 and 174-191), the
  channel \<^verbatim>\<open>uploadSig\<close> with its buffer of one element (line 169), the trace of the events
  so far and the number of questions asked.
\<close>

record world =
  ticks :: nat
  trace :: "event list"
  uploadSig :: "Request_Operation list"
  agentLogPath :: string
  databaseLogPath :: string
  monitorLogPath :: string
  etcdDataDir :: string
  consulDataDir :: string
  zkWorkingDir :: string
  zkDataDir :: string

text \<open>What is read once from the environment and the command line (lines 63-74, 121-122).\<close>

record config =
  shell :: string
  etcdBinaryPath :: string
  consulBinaryPath :: string
  zetcdBinaryPath :: string
  cetcdBinaryPath :: string
  WorkingDirectory :: string

definition javaBinaryPath :: string where "javaBinaryPath = ''/usr/bin/java''"
definition etcdToken :: string where "etcdToken = ''etcd_token''"
definition zkConfigPath :: string where "zkConfigPath = ''zookeeper.config''"

definition initial_world :: world where
  "initial_world = \<lparr>ticks = 0, trace = [], uploadSig = [],
     agentLogPath = ''agent.log'', databaseLogPath = ''database.log'',
     monitorLogPath = ''monitor.csv'', etcdDataDir = ''data.etcd'',
     consulDataDir = ''data.consul'', zkWorkingDir = ''zookeeper'',
     zkDataDir = ''zookeeper/data.zk''\<rparr>"

definition emit :: "event \<Rightarrow> world \<Rightarrow> world" where
  "emit e w = w\<lparr>trace := trace w @ [e]\<rparr>"

definition tick :: "world \<Rightarrow> world" where
  "tick w = w\<lparr>ticks := Suc (ticks w)\<rparr>"

text \<open>The events between an earlier world and a later one.\<close>

definition new_events :: "world \<Rightarrow> world \<Rightarrow> event list" where
  "new_events w w' = drop (length (trace w)) (trace w')"

definition plog :: "log_level \<Rightarrow> string \<Rightarrow> arg list \<Rightarrow> world \<Rightarrow> world" where
  "plog lvl fmt as w = emit (EvLog lvl fmt as) w"

definition time_Sleep :: "nat \<Rightarrow> world \<Rightarrow> world" where
  "time_Sleep seconds w = emit (EvSleep seconds) w"

definition exist :: "env \<Rightarrow> string \<Rightarrow> world \<Rightarrow> bool \<times> world" where
  "exist env p w = (exist_res env (ticks w) p, tick w)"

definition toFile :: "env \<Rightarrow> string \<Rightarrow> string \<Rightarrow> world \<Rightarrow> string option \<times> world" where
  "toFile env txt p w = (toFile_res env (ticks w) txt p, tick (emit (EvToFile txt p) w))"

definition os_RemoveAll :: "env \<Rightarrow> string \<Rightarrow> world \<Rightarrow> string option \<times> world" where
  "os_RemoveAll env p w = (RemoveAll_res env (ticks w) p, tick (emit (EvRemoveAll p) w))"

definition os_Chdir :: "env \<Rightarrow> string \<Rightarrow> world \<Rightarrow> string option \<times> world" where
  "os_Chdir env p w = (Chdir_res env (ticks w) p, tick (emit (EvChdir p) w))"

definition os_MkdirAll :: "env \<Rightarrow> string \<Rightarrow> world \<Rightarrow> string option \<times> world" where
  "os_MkdirAll env p w = (MkdirAll_res env (ticks w) p, tick (emit (EvMkdirAll p) w))"

definition openToAppend :: "env \<Rightarrow> string \<Rightarrow> world \<Rightarrow> (string + File) \<times> world" where
  "openToAppend env p w =
     ((case openToAppend_res env (ticks w) p of
         Some e \<Rightarrow> Inl e
       | None \<Rightarrow> Inr (File p (ticks w))),
      tick (emit (EvOpenToAppend p) w))"

definition cmd_Start :: "env \<Rightarrow> Cmd \<Rightarrow> world \<Rightarrow> (string + int) \<times> world" where
  "cmd_Start env c w = (cmd_Start_res env (ticks w) c, tick (emit (EvCmdStart c) w))"

definition syscall_Kill :: "env \<Rightarrow> int \<Rightarrow> world \<Rightarrow> string option \<times> world" where
  "syscall_Kill env p w = (Kill_res env (ticks w) p, tick (emit (EvKill p) w))"

definition file_Close :: "File option \<Rightarrow> world \<Rightarrow> world" where
  "file_Close fo w = (case fo of None \<Rightarrow> w | Some f \<Rightarrow> emit (EvClose f) w)"

definition file_Sync :: "File option \<Rightarrow> world \<Rightarrow> world" where
  "file_Sync fo w = (case fo of None \<Rightarrow> w | Some f \<Rightarrow> emit (EvSync f) w)"

text \<open>
  \<^verbatim>\<open>uploadSig <- op\<close> on the channel made with \<^verbatim>\<open>make(chan Request_Operation, 1)\<close>: the value
  goes into the buffer when the buffer has room, and the sender waits otherwise.
\<close>

definition send_uploadSig :: "Request_Operation \<Rightarrow> world \<Rightarrow> world option" where
  "send_uploadSig op w =
     (if length (uploadSig w) < 1
      then Some (emit (EvSend op) (w\<lparr>uploadSig := uploadSig w @ [op]\<rparr>))
      else None)"

subsection \<open>\<^verbatim>\<open>Transfer\<close>: the preamble (agent.go, lines 172-216)\<close>

definition under_WorkingDirectory :: "config \<Rightarrow> string \<Rightarrow> string" where
  "under_WorkingDirectory cfg p =
     (if \<not> filepath_HasPrefix p (WorkingDirectory cfg)
      then filepath_Join (WorkingDirectory cfg) p else p)"

text \<open>
  \<^verbatim>\<open>CommandFunc\<close>, lines 129-131: before the server listens, the path of the agent's own log
  is put under the working directory.
\<close>

definition CommandFunc_paths :: "config \<Rightarrow> world \<Rightarrow> world" where
  "CommandFunc_paths cfg w = w\<lparr>agentLogPath := under_WorkingDirectory cfg (agentLogPath w)\<rparr>"

text \<open>Lines 173-201, run for a \<^verbatim>\<open>Start\<close> only.\<close>

definition Start_paths :: "config \<Rightarrow> world \<Rightarrow> world" where
  "Start_paths cfg w0 =
     (let w = w0\<lparr>etcdDataDir := under_WorkingDirectory cfg (etcdDataDir w0)\<rparr>;
          w = w\<lparr>consulDataDir := under_WorkingDirectory cfg (consulDataDir w)\<rparr>;
          w = w\<lparr>zkWorkingDir := under_WorkingDirectory cfg (zkWorkingDir w)\<rparr>;
          w = w\<lparr>zkDataDir := under_WorkingDirectory cfg (zkDataDir w)\<rparr>;
          w = w\<lparr>databaseLogPath := under_WorkingDirectory cfg (databaseLogPath w)\<rparr>;
          w = w\<lparr>monitorLogPath := under_WorkingDirectory cfg (monitorLogPath w)\<rparr>;
          w = plog LInfo ''received gRPC request'' [] w;
          w = plog LInfo ''working_directory: %q'' [Str (WorkingDirectory cfg)] w;
          w = plog LInfo ''working_directory_zookeeper: %q'' [Str (zkWorkingDir w)] w;
          w = plog LInfo ''data_directory_etcd: %q'' [Str (etcdDataDir w)] w;
          w = plog LInfo ''data_directory_consul: %q'' [Str (consulDataDir w)] w;
          w = plog LInfo ''data_directory_zookeeper: %q'' [Str (zkDataDir w)] w;
          w = plog LInfo ''database_log_path: %q'' [Str (databaseLogPath w)] w;
          w = plog LInfo ''monitor_log_path: %q'' [Str (monitorLogPath w)] w
      in w)"

text \<open>Lines 203-210: what the server keeps of the request.\<close>

definition keep_request :: "transporterServer \<Rightarrow> Request \<Rightarrow> transporterServer" where
  "keep_request t r =
     (case Operation r of
        Request_Start \<Rightarrow> t\<lparr>req := r\<rparr>
      | Request_UploadLog \<Rightarrow>
          t\<lparr>req := (req t)\<lparr>GoogleCloudProjectName := GoogleCloudProjectName r,
                            GoogleCloudStorageBucketName := GoogleCloudStorageBucketName r,
                            GoogleCloudStorageSubDirectory := GoogleCloudStorageSubDirectory r\<rparr>\<rparr>
      | _ \<Rightarrow> t)"

text \<open>Lines 212-216: the storage key is written to a file whenever the server has one.\<close>

definition write_key :: "config \<Rightarrow> env \<Rightarrow> transporterServer \<Rightarrow> world \<Rightarrow> string option \<times> world" where
  "write_key cfg env t w =
     (if GoogleCloudStorageKey (req t) \<noteq> []
      then toFile env (GoogleCloudStorageKey (req t))
             (filepath_Join (WorkingDirectory cfg) ''gcloud-key.json'') w
      else (None, w))"

subsection \<open>\<^verbatim>\<open>Transfer\<close>: \<^verbatim>\<open>Start\<close> of etcd, with or without a proxy (lines 222-333)\<close>

text \<open>Lines 241-252: the four slices filled by the loop over the peers, and the join.\<close>

definition etcd_names :: "string list \<Rightarrow> string list" where
  "etcd_names peerIPs = map (\<lambda>i. ''etcd-'' @ showInt (int i + 1)) [0..<length peerIPs]"

definition etcd_clientURLs :: "string list \<Rightarrow> string list" where
  "etcd_clientURLs peerIPs = map (\<lambda>u. ''http://'' @ u @ '':2379'') peerIPs"

definition etcd_peerURLs :: "string list \<Rightarrow> string list" where
  "etcd_peerURLs peerIPs = map (\<lambda>u. ''http://'' @ u @ '':2380'') peerIPs"

definition etcd_members :: "string list \<Rightarrow> string list" where
  "etcd_members peerIPs =
     map (\<lambda>i. etcd_names peerIPs ! i @ ''='' @ etcd_peerURLs peerIPs ! i) [0..<length peerIPs]"

definition etcd_clusterStr :: "string list \<Rightarrow> string" where
  "etcd_clusterStr peerIPs = strings_Join (etcd_members peerIPs) '',''"

text \<open>
  Lines 253-266. Reading \<^verbatim>\<open>names[t.req.ServerIndex]\<close> panics when the index is not a
  position of the peer list: \<open>None\<close>.
\<close>

definition etcd_flags :: "string list \<Rightarrow> nat \<Rightarrow> string \<Rightarrow> string list option" where
  "etcd_flags peerIPs serverIndex dataDir =
     (if serverIndex < length peerIPs then
        Some [''--name'', etcd_names peerIPs ! serverIndex,
              ''--data-dir'', dataDir,
              ''--listen-client-urls'', etcd_clientURLs peerIPs ! serverIndex,
              ''--advertise-client-urls'', etcd_clientURLs peerIPs ! serverIndex,
              ''--listen-peer-urls'', etcd_peerURLs peerIPs ! serverIndex,
              ''--initial-advertise-peer-urls'', etcd_peerURLs peerIPs ! serverIndex,
              ''--initial-cluster-token'', etcdToken,
              ''--initial-cluster'', etcd_clusterStr peerIPs,
              ''--initial-cluster-state'', ''new'']
      else None)"

text \<open>Lines 296-307: the flags of the proxy.\<close>

definition proxy_flags :: "Request_Database \<Rightarrow> string \<Rightarrow> string list" where
  "proxy_flags db endpoint =
     (if db = Request_zetcd
      then [''-zkaddr'', ''0.0.0.0:2181'', ''-endpoint'', endpoint]
      else [''-consuladdr'', ''0.0.0.0:8500'', ''-etcd'', endpoint])"

text \<open>
  Lines 269-288, and the same statements at lines 314-332, 390-409 and 448-467: start the
  command with both streams on the log file, and leave a goroutine waiting for its end.
  The result is the process id.
\<close>

definition launch :: "env \<Rightarrow> string \<Rightarrow> string list \<Rightarrow> File \<Rightarrow> world \<Rightarrow> (string + Cmd \<times> int) \<times> world" where
  "launch env name flags f w0 =
     (let c = (exec_Command name flags)\<lparr>Stdout := Some f, Stderr := Some f\<rparr>;
          cmdString = Path c @ '' '' @ strings_Join flags '' '';
          w = plog LInfo ''starting binary %q'' [Str cmdString] w0;
          (r, w) = cmd_Start env c w
      in case r of
           Inl e \<Rightarrow> (Inl e, w)
         | Inr p \<Rightarrow>
             (Inr (c, p),
              emit (EvGoWait c) (plog LInfo ''started binary %q [PID: %d]'' [Str cmdString, Num p] w)))"

text \<open>Lines 290-333: the proxy of zetcd and cetcd.\<close>

definition Start_proxy ::
  "config \<Rightarrow> env \<Rightarrow> string list \<Rightarrow> transporterServer \<Rightarrow> world \<Rightarrow> unit outcome \<times> transporterServer \<times> world" where
  "Start_proxy cfg env peerIPs t w0 =
     (let db = Database (req t) in
      if db = Request_zetcd \<or> db = Request_cetcd then
        (case openToAppend env (databaseLogPath w0 @ ''-'' @ Database_String db) w0 of
           (Inl e, w) \<Rightarrow> (Fail (ExtError e), t, w)
         | (Inr f2, w) \<Rightarrow>
             (let t = t\<lparr>proxyLogfile := Some f2\<rparr>;
                  flags2 = proxy_flags db (etcd_clientURLs peerIPs ! ServerIndex (req t));
                  bpath = (if db = Request_cetcd then cetcdBinaryPath cfg else zetcdBinaryPath cfg)
              in (case launch env bpath flags2 f2 w of
                    (Inl e, w) \<Rightarrow> (Fail (ExtError e), t, w)
                  | (Inr (c2, p2), w) \<Rightarrow>
                      (Ok (), t\<lparr>proxyCmd := Some c2, proxyPid := p2\<rparr>, w))))
      else (Ok (), t, w0))"

text \<open>Lines 222-289, then the proxy. The result is \<^verbatim>\<open>pidToMonitor\<close>.\<close>

definition Start_etcd ::
  "config \<Rightarrow> env \<Rightarrow> string list \<Rightarrow> transporterServer \<Rightarrow> world \<Rightarrow> int outcome \<times> transporterServer \<times> world" where
  "Start_etcd cfg env peerIPs t w0 =
     (let db = Database (req t);
          (ex, w) = exist env (etcdBinaryPath cfg) w0 in
      if \<not> ex then (Fail (Errorf ''etcd binary %q does not exist'' [etcdBinaryPath cfg]), t, w)
      else
      let (exz, w) = (if db = Request_zetcd then exist env (zetcdBinaryPath cfg) w else (True, w)) in
      if \<not> exz then (Fail (Errorf ''zetcd binary %q does not exist'' [zetcdBinaryPath cfg]), t, w)
      else
      let (exc, w) = (if db = Request_cetcd then exist env (cetcdBinaryPath cfg) w else (True, w)) in
      if \<not> exc then (Fail (Errorf ''cetcd binary %q does not exist'' [cetcdBinaryPath cfg]), t, w)
      else
      (case os_RemoveAll env (etcdDataDir w) w of
        (Some e, w) \<Rightarrow> (Fail (ExtError e), t, w)
      | (None, w) \<Rightarrow>
      (case openToAppend env (databaseLogPath w) w of
        (Inl e, w) \<Rightarrow> (Fail (ExtError e), t, w)
      | (Inr f, w) \<Rightarrow>
      (let t = t\<lparr>logfile := Some f\<rparr> in
      (case etcd_flags peerIPs (ServerIndex (req t)) (etcdDataDir w) of
        None \<Rightarrow> (Panic ''index out of range'', t, w)
      | Some flags \<Rightarrow>
      (case launch env (etcdBinaryPath cfg) flags f w of
        (Inl e, w) \<Rightarrow> (Fail (ExtError e), t, w)
      | (Inr (c, p), w) \<Rightarrow>
      (let t = t\<lparr>cmd := Some c, pid := p\<rparr> in
      (case Start_proxy cfg env peerIPs t w of
        (out, t, w) \<Rightarrow> (map_outcome (\<lambda>u. p) out, t, w)))))))))"

subsection \<open>\<^verbatim>\<open>Transfer\<close>: \<^verbatim>\<open>Start\<close> of ZooKeeper (lines 335-409)\<close>

record ZookeeperPeer =
  MyID :: int
  IP :: string

record ZookeeperConfig =
  TickTime :: int
  DataDir :: string
  ClientPort :: string
  InitLimit :: int
  SyncLimit :: int
  MaxClientCnxns :: "64 word"
  SnapCount :: "64 word"
  Peers :: "ZookeeperPeer list"

definition zkConfigDefault :: ZookeeperConfig where
  "zkConfigDefault = \<lparr>TickTime = 2000, DataDir = [], ClientPort = ''2181'', InitLimit = 5,
     SyncLimit = 5, MaxClientCnxns = 60, SnapCount = 0,
     Peers = [\<lparr>MyID = 1, IP = []\<rparr>, \<lparr>MyID = 2, IP = []\<rparr>, \<lparr>MyID = 3, IP = []\<rparr>]\<rparr>"

text \<open>
  The text that \<^verbatim>\<open>zkTemplate\<close> (lines 83-92) renders: seven settings, one line for each
  peer, and the line break that follows the end of the range. The 64-bit fields are
  signed.
\<close>

definition newline :: string where
  "newline = [CHR 0x0A]"

definition zkTemplate :: "ZookeeperConfig \<Rightarrow> string" where
  "zkTemplate c =
     ''tickTime='' @ showInt (TickTime c) @ newline
     @ ''dataDir='' @ DataDir c @ newline
     @ ''clientPort='' @ ClientPort c @ newline
     @ ''initLimit='' @ showInt (InitLimit c) @ newline
     @ ''syncLimit='' @ showInt (SyncLimit c) @ newline
     @ ''maxClientCnxns='' @ showInt (sint (MaxClientCnxns c)) @ newline
     @ ''snapCount='' @ showInt (sint (SnapCount c)) @ newline
     @ concat (map (\<lambda>p. ''server.'' @ showInt (MyID p) @ ''='' @ IP p @ '':2888:3888'' @ newline)
                 (Peers c))
     @ newline"

text \<open>Lines 357-365.\<close>

definition zkCfg_of :: "string list \<Rightarrow> transporterServer \<Rightarrow> world \<Rightarrow> ZookeeperConfig" where
  "zkCfg_of peerIPs t w =
     zkConfigDefault\<lparr>DataDir := zkDataDir w,
       Peers := map (\<lambda>i. \<lparr>MyID = int i + 1, IP = peerIPs ! i\<rparr>) [0..<length peerIPs],
       MaxClientCnxns := ZookeeperMaxClientCnxns (req t),
       SnapCount := ZookeeperSnapCount (req t)\<rparr>"

definition zk_flagString :: string where
  "zk_flagString = ''-cp zookeeper-3.4.9.jar:lib/slf4j-api-1.6.1.jar:lib/slf4j-log4j12-1.6.1.jar:lib/log4j-1.2.16.jar:conf org.apache.zookeeper.server.quorum.QuorumPeerMain''"

definition Start_ZooKeeper ::
  "config \<Rightarrow> env \<Rightarrow> string list \<Rightarrow> transporterServer \<Rightarrow> world \<Rightarrow> int outcome \<times> transporterServer \<times> world" where
  "Start_ZooKeeper cfg env peerIPs t w0 =
     (let (ex, w) = exist env javaBinaryPath w0 in
      if \<not> ex then (Fail (Errorf ''%q does not exist'' [javaBinaryPath]), t, w)
      else
      (case os_Chdir env (zkWorkingDir w) (plog LInfo ''os.Chdir %q'' [Str (zkWorkingDir w)] w) of
        (Some e, w) \<Rightarrow> (Fail (ExtError e), t, w)
      | (None, w) \<Rightarrow>
      (case os_MkdirAll env (zkDataDir w) (plog LInfo ''os.MkdirAll %q'' [Str (zkDataDir w)] w) of
        (Some e, w) \<Rightarrow> (Fail (ExtError e), t, w)
      | (None, w) \<Rightarrow>
      (let idFilePath = filepath_Join (zkDataDir w) ''myid'';
           w = plog LInfo ''writing zk myid file %d in %s''
                 [Num (int (ZookeeperMyID (req t))), Str idFilePath] w in
      (case toFile env (showNat (ZookeeperMyID (req t))) idFilePath w of
        (Some e, w) \<Rightarrow> (Fail (ExtError e), t, w)
      | (None, w) \<Rightarrow>
      (let zc = zkTemplate (zkCfg_of peerIPs t w);
           configFilePath = filepath_Join (zkWorkingDir w) zkConfigPath;
           w = plog LInfo ''writing zk config file %q (config %q)'' [Str configFilePath, Str zc] w in
      (case toFile env zc configFilePath w of
        (Some e, w) \<Rightarrow> (Fail (ExtError e), t, w)
      | (None, w) \<Rightarrow>
      (case openToAppend env (databaseLogPath w) w of
        (Inl e, w) \<Rightarrow> (Fail (ExtError e), t, w)
      | (Inr f, w) \<Rightarrow>
      (let t = t\<lparr>logfile := Some f\<rparr>;
           args = [shell cfg, ''-c'', javaBinaryPath @ '' '' @ zk_flagString @ '' '' @ configFilePath] in
      (case launch env (hd args) (tl args) f w of
        (Inl e, w) \<Rightarrow> (Fail (ExtError e), t, w)
      | (Inr (c, p), w) \<Rightarrow> (Ok p, t\<lparr>cmd := Some c, pid := p\<rparr>, w)))))))))))"

subsection \<open>\<^verbatim>\<open>Transfer\<close>: \<^verbatim>\<open>Start\<close> of Consul (lines 411-467)\<close>

text \<open>Lines 424-445; \<^verbatim>\<open>peerIPs[t.req.ServerIndex]\<close> panics out of range, \<^verbatim>\<open>peerIPs[0]\<close> never does.\<close>

definition consul_flags :: "string list \<Rightarrow> nat \<Rightarrow> string \<Rightarrow> string list option" where
  "consul_flags peerIPs serverIndex dataDir =
     (if serverIndex < length peerIPs then
        (if serverIndex = 0
         then Some [''agent'', ''-server'', ''-data-dir'', dataDir,
                    ''-bind'', peerIPs ! serverIndex, ''-client'', peerIPs ! serverIndex,
                    ''-bootstrap-expect'', ''3'']
         else Some [''agent'', ''-server'', ''-data-dir'', dataDir,
                    ''-bind'', peerIPs ! serverIndex, ''-client'', peerIPs ! serverIndex,
                    ''-join'', peerIPs ! 0])
      else None)"

definition Start_Consul ::
  "config \<Rightarrow> env \<Rightarrow> string list \<Rightarrow> transporterServer \<Rightarrow> world \<Rightarrow> int outcome \<times> transporterServer \<times> world" where
  "Start_Consul cfg env peerIPs t w0 =
     (let (ex, w) = exist env (consulBinaryPath cfg) w0 in
      if \<not> ex then (Fail (Errorf ''%q does not exist'' [consulBinaryPath cfg]), t, w)
      else
      (case os_RemoveAll env (consulDataDir w) w of
        (Some e, w) \<Rightarrow> (Fail (ExtError e), t, w)
      | (None, w) \<Rightarrow>
      (case openToAppend env (databaseLogPath w) w of
        (Inl e, w) \<Rightarrow> (Fail (ExtError e), t, w)
      | (Inr f, w) \<Rightarrow>
      (let t = t\<lparr>logfile := Some f\<rparr> in
      (case consul_flags peerIPs (ServerIndex (req t)) (consulDataDir w) of
        None \<Rightarrow> (Panic ''index out of range'', t, w)
      | Some flags \<Rightarrow>
      (case launch env (consulBinaryPath cfg) flags f w of
        (Inl e, w) \<Rightarrow> (Fail (ExtError e), t, w)
      | (Inr (c, p), w) \<Rightarrow> (Ok p, t\<lparr>cmd := Some c, pid := p\<rparr>, w)))))))"

subsection \<open>\<^verbatim>\<open>Transfer\<close>: \<^verbatim>\<open>Stop\<close> (lines 473-498) and \<^verbatim>\<open>UploadLog\<close> (lines 500-506)\<close>

definition Transfer_Stop ::
  "env \<Rightarrow> transporterServer \<Rightarrow> world \<Rightarrow> int outcome \<times> world" where
  "Transfer_Stop env t w0 =
     (let w = time_Sleep 3 w0 in
      (case cmd t of
        None \<Rightarrow> (Fail (Errorf ''nil command'' []), w)
      | Some c \<Rightarrow>
      (let w = plog LInfo ''stopping binary %q for %q [PID: %d]''
                 [Str (Path c), Str (Database_String (Database (req t))), Num (pid t)] w in
      (case syscall_Kill env (pid t) w of
        (Some e, w) \<Rightarrow> (Fail (ExtError e), w)
      | (None, w) \<Rightarrow>
      (let w = file_Close (logfile t) w;
           w = plog LInfo ''stopped binary %q [PID: %d]''
                 [Str (Database_String (Database (req t))), Num (pid t)] w;
           pidToMonitor = pid t;
           (r, w) =
             (case proxyCmd t of
                None \<Rightarrow> (None, w)
              | Some c2 \<Rightarrow>
                  (let w = plog LInfo ''stopping proxy binary %q for %q [PID: %d]''
                             [Str (Path c2), Str (Database_String (Database (req t))), Num (proxyPid t)] w
                   in (case syscall_Kill env (proxyPid t) w of
                         (Some e, w) \<Rightarrow> (Some e, w)
                       | (None, w) \<Rightarrow>
                           (None, plog LInfo ''stopped proxy binary %q for %q [PID: %d]''
                              [Str (Path c2), Str (Database_String (Database (req t))), Num (proxyPid t)] w))))
       in
      (case r of
        Some e \<Rightarrow> (Fail (ExtError e), w)
      | None \<Rightarrow>
      (let w = file_Close (proxyLogfile t) w in
      (case send_uploadSig Request_Stop w of
        None \<Rightarrow> (Blocked, w)
      | Some w \<Rightarrow> (Ok pidToMonitor, w)))))))))"

definition Transfer_UploadLog ::
  "transporterServer \<Rightarrow> world \<Rightarrow> int outcome \<times> world" where
  "Transfer_UploadLog t w0 =
     (let w = time_Sleep 3 w0;
          w = plog LInfo ''just uploading logs without stoppping %q [PID: %d]''
                [Str (Database_String (Database (req t))), Num (pid t)] w;
          w = file_Sync (logfile t) w in
      (case send_uploadSig Request_UploadLog w of
        None \<Rightarrow> (Blocked, w)
      | Some w \<Rightarrow> (Ok 0, w)))"

subsection \<open>\<^verbatim>\<open>Transfer\<close> (lines 171-654)\<close>

text \<open>
  The switch of lines 219-510. The result carries \<^verbatim>\<open>pidToMonitor\<close>, which stays at its zero
  value in the \<^verbatim>\<open>UploadLog\<close> case.
\<close>

definition Transfer_switch ::
  "config \<Rightarrow> env \<Rightarrow> string list \<Rightarrow> Request \<Rightarrow> transporterServer \<Rightarrow> world
     \<Rightarrow> int outcome \<times> transporterServer \<times> world" where
  "Transfer_switch cfg env peerIPs r t w =
     (case Operation r of
        Request_Start \<Rightarrow>
          (case Database (req t) of
             Request_ZooKeeper \<Rightarrow> Start_ZooKeeper cfg env peerIPs t w
           | Request_Consul \<Rightarrow> Start_Consul cfg env peerIPs t w
           | Request_Database_unnamed n \<Rightarrow>
               (Fail (Errorf ''unknown database %q'' [Database_String (Database r)]), t, w)
           | _ \<Rightarrow> Start_etcd cfg env peerIPs t w)
      | Request_Stop \<Rightarrow> (case Transfer_Stop env t w of (out, w) \<Rightarrow> (out, t, w))
      | Request_UploadLog \<Rightarrow> (case Transfer_UploadLog t w of (out, w) \<Rightarrow> (out, t, w))
      | Request_Operation_unnamed n \<Rightarrow>
          (Fail (Errorf ''Not implemented %v'' [Operation_String (Operation r)]), t, w))"

text \<open>
  The whole handler. A \<^verbatim>\<open>Start\<close> that got through the switch leaves the monitoring
  goroutine behind (lines 512-650), which is \<open>monitor_begin\<close> and \<open>monitor_select\<close> below.
\<close>

definition Transfer ::
  "config \<Rightarrow> env \<Rightarrow> transporterServer \<Rightarrow> Request \<Rightarrow> world
     \<Rightarrow> Response outcome \<times> transporterServer \<times> world" where
  "Transfer cfg env t0 r w0 =
     (let peerIPs = strings_Split (PeerIPString r) ''___'';
          w = (if Operation r = Request_Start then Start_paths cfg w0 else w0);
          t = keep_request t0 r in
      (case write_key cfg env t w of
        (Some e, w) \<Rightarrow> (Fail (ExtError e), t, w)
      | (None, w) \<Rightarrow>
      (case Transfer_switch cfg env peerIPs r t w of
        (Ok pidToMonitor, t, w) \<Rightarrow>
          (let w = (if Operation r = Request_Start then emit (EvGoMonitor pidToMonitor) w else w);
               w = plog LInfo ''transfer success'' [] w
           in (Ok \<lparr>Success = True\<rparr>, t, w))
      | (Fail e, t, w) \<Rightarrow> (Fail e, t, w)
      | (Panic m, t, w) \<Rightarrow> (Panic m, t, w)
      | (Blocked, t, w) \<Rightarrow> (Blocked, t, w))))"

subsection \<open>The upload pass: \<^verbatim>\<open>uploadFunc\<close> (lines 539-624)\<close>

text \<open>
  \<^verbatim>\<open>NewGoogleCloudStorage\<close> of package remotestorage: the only failure is the key that does
  not parse.
\<close>

record GoogleCloudStorage =
  JSONKey :: string
  Project :: string
  Config :: string

definition NewGoogleCloudStorage :: "env \<Rightarrow> string \<Rightarrow> string \<Rightarrow> error + GoogleCloudStorage" where
  "NewGoogleCloudStorage env key project =
     (case JWTConfigFromJSON_res env key of
        Inl e \<Rightarrow> Inl (ExtError e)
      | Inr conf \<Rightarrow> Inr \<lparr>JSONKey = key, Project = project, Config = conf\<rparr>)"

definition u_UploadFile ::
  "env \<Rightarrow> string \<Rightarrow> string \<Rightarrow> string \<Rightarrow> world \<Rightarrow> string option \<times> world" where
  "u_UploadFile env bucket src dst w =
     (UploadFile_res env (ticks w) bucket src dst, tick (emit (EvUploadFile bucket src dst) w))"

text \<open>
  The loop \<^verbatim>\<open>for k := 0; k < 30; k++\<close> of lines 554-562 (and 575-583, 596-604, 613-621),
  from the value of \<open>k\<close> on; the result is \<^verbatim>\<open>uerr\<close> after the loop.
\<close>

function upload_retry ::
  "env \<Rightarrow> string \<Rightarrow> string \<Rightarrow> string \<Rightarrow> nat \<Rightarrow> string option \<Rightarrow> world \<Rightarrow> string option \<times> world" where
  "upload_retry env bucket src dst k uerr w =
     (if k < 30 then
        (case u_UploadFile env bucket src dst w of
           (Some e, w') \<Rightarrow>
             upload_retry env bucket src dst (k + 1) (Some e)
               (time_Sleep 2
                  (plog LError ''u.UploadFile error... sleep and retry... (%v)'' [Err (ExtError e)] w'))
         | (None, w') \<Rightarrow> (None, w'))
      else (uerr, w))"
  by pat_completeness auto
termination
  by (relation "measure (\<lambda>(env, bucket, src, dst, k, uerr, w). 30 - k)") auto

declare upload_retry.simps [simp del]

text \<open>One artifact: its destination name, the line in the log, and the loop.\<close>

definition artifact_dst :: "transporterServer \<Rightarrow> string \<Rightarrow> string" where
  "artifact_dst t src =
     dstPath (GoogleCloudStorageSubDirectory (req t)) (TestName (req t))
       (ServerIndex (req t)) (filepath_Base src)"

definition upload_artifact ::
  "env \<Rightarrow> transporterServer \<Rightarrow> string \<Rightarrow> string \<Rightarrow> string option \<Rightarrow> world \<Rightarrow> string option \<times> world" where
  "upload_artifact env t fmt src uerr w =
     (let dst = artifact_dst t src;
          w = plog LInfo fmt [Str src, Str dst] w
      in upload_retry env (GoogleCloudStorageBucketName (req t)) src dst 0 uerr w)"

text \<open>Lines 564-587: the log of the proxy, when the database has one and the file is there.\<close>

definition upload_proxy_log :: "env \<Rightarrow> transporterServer \<Rightarrow> world \<Rightarrow> world" where
  "upload_proxy_log env t w0 =
     (let db = Database (req t) in
      if db = Request_zetcd \<or> db = Request_cetcd then
        (let dpath = databaseLogPath w0 @ ''-'' @ Database_String db;
             (ex, w) = exist env dpath w0
         in if ex
            then snd (upload_artifact env t ''uploading database log [%q -> %q]'' dpath None w)
            else plog LError ''%q is expected, but doesn't exist!'' [Str dpath] w)
      else w0)"

definition uploadFunc :: "env \<Rightarrow> transporterServer \<Rightarrow> world \<Rightarrow> error option \<times> world" where
  "uploadFunc env t w0 =
     (let w = plog LInfo ''stopped monitoring, uploading to storage %q''
                [Str (GoogleCloudProjectName (req t))] w0 in
      (case NewGoogleCloudStorage env (GoogleCloudStorageKey (req t)) (GoogleCloudProjectName (req t)) of
        Inl err \<Rightarrow> (Some err, w)
      | Inr u \<Rightarrow>
      (let (uerr, w) = upload_artifact env t ''uploading database log [%q -> %q]''
                         (databaseLogPath w) None w;
           w = upload_proxy_log env t w;
           (uerr, w) = upload_artifact env t ''uploading monitor results [%q -> %q]''
                         (monitorLogPath w) uerr w;
           (uerr, w) = upload_artifact env t ''uploading agent logs [%q -> %q]''
                         (agentLogPath w) uerr w
       in (None, w))))"

subsection \<open>The monitoring goroutine (lines 513-649)\<close>

definition process_List :: "env \<Rightarrow> int \<Rightarrow> world \<Rightarrow> (string + string list) \<times> world" where
  "process_List env p w = (process_List_res env (ticks w) p, tick (emit (EvProcessList p) w))"

definition process_WriteToCSV :: "env \<Rightarrow> File \<Rightarrow> string list \<Rightarrow> world \<Rightarrow> string option \<times> world" where
  "process_WriteToCSV env f pss w =
     (WriteToCSV_res env (ticks w) f pss, tick (emit (EvWriteToCSV f) w))"

text \<open>Lines 517-530: one sample; the deferred \<^verbatim>\<open>f.Close()\<close> runs after the write.\<close>

definition rFunc :: "env \<Rightarrow> int \<Rightarrow> world \<Rightarrow> error option \<times> world" where
  "rFunc env p w0 =
     (case process_List env p w0 of
        (Inl e, w) \<Rightarrow> (Some (ExtError e), w)
      | (Inr pss, w) \<Rightarrow>
      (case openToAppend env (monitorLogPath w) w of
        (Inl e, w) \<Rightarrow> (Some (ExtError e), w)
      | (Inr f, w) \<Rightarrow>
      (case process_WriteToCSV env f pss w of
        (r, w) \<Rightarrow> (map_option ExtError r, emit (EvClose f) w))))"

datatype loop_status = Looping | Exited

text \<open>Lines 532-537: the first sample, before the loop; its failure ends the goroutine.\<close>

definition monitor_begin :: "env \<Rightarrow> transporterServer \<Rightarrow> int \<Rightarrow> world \<Rightarrow> loop_status \<times> world" where
  "monitor_begin env t p w0 =
     (let w = plog LInfo ''saving monitoring results for %q in %q''
                [Str (Database_String (Database (req t))), Str (monitorLogPath w0)] w0 in
      (case rFunc env p w of
        (Some err, w) \<Rightarrow> (Exited, plog LError ''monitoring error (%v)'' [Err err] w)
      | (None, w) \<Rightarrow> (Looping, w)))"

text \<open>
  One turn of the loop of lines 626-648, given the case that \<^verbatim>\<open>select\<close> takes: the timer of
  one second, a value on \<^verbatim>\<open>uploadSig\<close>, or a signal of the operating system. The case of
  \<^verbatim>\<open>uploadSig\<close> cannot be taken while the channel is empty: the loop stays where it is.
  The goroutine reads the server through the pointer \<open>t\<close>, so it sees the request as it
  is at the time of the turn.
\<close>

datatype select_case = Timer | UploadSig | Notifier string

definition monitor_select ::
  "env \<Rightarrow> transporterServer \<Rightarrow> int \<Rightarrow> select_case \<Rightarrow> world \<Rightarrow> loop_status \<times> world" where
  "monitor_select env t p sel w0 =
     (case sel of
        Timer \<Rightarrow>
          (case rFunc env p (emit (EvTimer 1) w0) of
             (Some err, w) \<Rightarrow> (Looping, plog LError ''monitoring error (%v)'' [Err err] w)
           | (None, w) \<Rightarrow> (Looping, w))
      | UploadSig \<Rightarrow>
          (case uploadSig w0 of
             [] \<Rightarrow> (Looping, w0)
           | us # rest \<Rightarrow>
               (case uploadFunc env t (emit (EvReceive us) (w0\<lparr>uploadSig := rest\<rparr>)) of
                  (Some err, w) \<Rightarrow> (Exited, plog LError ''uploadFunc error (%v)'' [Err err] w)
                | (None, w) \<Rightarrow> (if us = Request_UploadLog then (Looping, w) else (Exited, w))))
      | Notifier sig \<Rightarrow> (Exited, plog LInfo ''signal received %q'' [Str sig] w0))"

text \<open>The loop, for as many turns as there are cases in the list, or until it returns.\<close>

fun monitor_loop ::
  "env \<Rightarrow> transporterServer \<Rightarrow> int \<Rightarrow> select_case list \<Rightarrow> world \<Rightarrow> loop_status \<times> world" where
  "monitor_loop env t p [] w = (Looping, w)"
| "monitor_loop env t p (sel # sels) w =
     (case monitor_select env t p sel w of
        (Looping, w') \<Rightarrow> monitor_loop env t p sels w'
      | (Exited, w') \<Rightarrow> (Exited, w'))"

subsection \<open>\<^verbatim>\<open>UploadDir\<close> of package remotestorage\<close>

text \<open>\<^verbatim>\<open>strings.Replace(s, old, new, -1)\<close>: every occurrence, from the left, not overlapping.\<close>

function replace_from :: "string \<Rightarrow> string \<Rightarrow> string \<Rightarrow> string" where
  "replace_from old new [] = []"
| "replace_from old new (c # cs) =
     (if old \<noteq> [] \<and> strings_HasPrefix (c # cs) old
      then new @ replace_from old new (drop (length old) (c # cs))
      else c # replace_from old new cs)"
  by pat_completeness auto
termination
  by (relation "measure (\<lambda>(old, new, s). length s)") auto

definition strings_Replace_all :: "string \<Rightarrow> string \<Rightarrow> string \<Rightarrow> string" where
  "strings_Replace_all s old new =
     (if old = [] then new @ concat (map (\<lambda>c. c # new) s) else replace_from old new s)"

text \<open>
  The answers of the storage service and the file system to \<^verbatim>\<open>UploadDir\<close>. The upload
  tasks run side by side, so their answers depend on the file only.

  Modelled from the spec: \<^verbatim>\<open>walkRecursive\<close> is a helper of package remotestorage in a file
  that is not among the sources; it gives the files under a directory, as the keys of a
  map. The options of the call come to the content type they set (\<^verbatim>\<open>ret.ContentType\<close>).
\<close>

record gcs_env =
  NewClient_res :: "string option"
  bucket_Create_res :: "string \<Rightarrow> string \<Rightarrow> string option"
  walkRecursive_res :: "string \<Rightarrow> string + string list"
  ReadFile_res :: "string \<Rightarrow> string + string"
  writer_Write_res :: "string \<Rightarrow> string \<Rightarrow> string \<Rightarrow> string option"
  writer_Close_res :: "string \<Rightarrow> string option"

text \<open>What one task sends: a value on \<^verbatim>\<open>donec\<close>, or an error on \<^verbatim>\<open>errc\<close>.\<close>

datatype task_msg = Done | Failed error

datatype gcs_event =
    GoTask string
  | Received string task_msg
  | GcsLog string "arg list"
  | ClientClose

text \<open>Lines 137-161: the task of one file.\<close>

definition upload_task :: "gcs_env \<Rightarrow> string \<Rightarrow> string \<Rightarrow> string \<Rightarrow> string \<Rightarrow> task_msg" where
  "upload_task env contentType src dst fpath =
     (let targetPath = filepath_Join dst (strings_Replace_all fpath src []) in
      (case ReadFile_res env fpath of
        Inl err \<Rightarrow> Failed (Errorf ''ioutil.ReadFile(%s) %v'' [fpath, err])
      | Inr bts \<Rightarrow>
      (case writer_Write_res env targetPath contentType bts of
        Some err \<Rightarrow> Failed (ExtError err)
      | None \<Rightarrow>
      (case writer_Close_res env targetPath of
        Some err \<Rightarrow> Failed (ExtError err)
      | None \<Rightarrow> Done))))"

text \<open>
  Lines 164-172: the loop that waits for the tasks. Each task sends once, and the loop
  receives one message at a time: \<open>arrival\<close> is the order in which the messages of the
  tasks reach the loop, each task named by its file. When no task is left to send and
  the count is not reached, the loop waits for ever.
\<close>

fun wait_tasks ::
  "(string \<Rightarrow> task_msg) \<Rightarrow> nat \<Rightarrow> nat \<Rightarrow> string list \<Rightarrow> unit outcome \<times> gcs_event list" where
  "wait_tasks msg cnt num [] = (if cnt \<noteq> num then (Blocked, []) else (Ok (), []))"
| "wait_tasks msg cnt num (f # fs) =
     (if cnt \<noteq> num then
        (case msg f of
           Done \<Rightarrow>
             (case wait_tasks msg (cnt + 1) num fs of
                (out, evs) \<Rightarrow> (out, Received f Done # evs))
         | Failed err \<Rightarrow> (Fail err, [Received f (Failed err)]))
      else (Ok (), []))"

definition already_own :: string where
  "already_own = ''You already own this bucket. Please select another name''"

text \<open>
  Lines 130-175: one goroutine for each file of the map, then the wait. The deferred
  \<^verbatim>\<open>client.Close()\<close> is the last event.
\<close>

definition UploadDir_files ::
  "gcs_env \<Rightarrow> string \<Rightarrow> string \<Rightarrow> string \<Rightarrow> string list \<Rightarrow> unit outcome \<times> gcs_event list" where
  "UploadDir_files env src dst contentType arrival =
     (case walkRecursive_res env src of
        Inl err \<Rightarrow> (Fail (ExtError err), [ClientClose])
      | Inr fmap \<Rightarrow>
      (case wait_tasks (upload_task env contentType src dst) 0 (length fmap) arrival of
        (Ok u, evs) \<Rightarrow>
          (Ok (), map GoTask fmap @ evs @ [GcsLog ''finished uploading %q'' [Str src], ClientClose])
      | (Fail err, evs) \<Rightarrow> (Fail err, map GoTask fmap @ evs @ [ClientClose])
      | (Panic m, evs) \<Rightarrow> (Panic m, map GoTask fmap @ evs)
      | (Blocked, evs) \<Rightarrow> (Blocked, map GoTask fmap @ evs)))"

text \<open>Lines 108-128: the client and the bucket, before the files.\<close>

definition UploadDir ::
  "gcs_env \<Rightarrow> GoogleCloudStorage option \<Rightarrow> string \<Rightarrow> string \<Rightarrow> string \<Rightarrow> string \<Rightarrow> string list
     \<Rightarrow> unit outcome \<times> gcs_event list" where
  "UploadDir env g bucket src dst contentType arrival =
     (case g of
        None \<Rightarrow> (Fail (Errorf ''GoogleCloudStorage is nil'' []), [])
      | Some gcs \<Rightarrow>
      (case NewClient_res env of
        Some err \<Rightarrow> (Fail (ExtError err), [])
      | None \<Rightarrow>
      (case bucket_Create_res env bucket (Project gcs) of
        Some err \<Rightarrow>
          (if \<not> strings_Contains err already_own then (Fail (ExtError err), [ClientClose])
           else UploadDir_files env src dst contentType arrival)
      | None \<Rightarrow> UploadDir_files env src dst contentType arrival)))"

section \<open>What the claims speak of\<close>

text \<open>The commands started among some events, in order.\<close>

fun started_cmds :: "event list \<Rightarrow> Cmd list" where
  "started_cmds [] = []"
| "started_cmds (EvCmdStart c # evs) = c # started_cmds evs"
| "started_cmds (e # evs) = started_cmds evs"

text \<open>
  The steps of a \<^verbatim>\<open>Stop\<close> that claim C1 orders: the wait, a signal, the closing of a file,
  the trigger of the upload pass. The claim puts them in four phases, one after the other.
\<close>

fun stop_step :: "event \<Rightarrow> bool" where
  "stop_step (EvSleep n) = True"
| "stop_step (EvKill p) = True"
| "stop_step (EvClose f) = True"
| "stop_step (EvSend op) = True"
| "stop_step e = False"

fun claimed_phase :: "event \<Rightarrow> nat" where
  "claimed_phase (EvSleep n) = 0"
| "claimed_phase (EvKill p) = 1"
| "claimed_phase (EvClose f) = 2"
| "claimed_phase e = 3"

definition in_claimed_order :: "event list \<Rightarrow> bool" where
  "in_claimed_order evs = sorted (map claimed_phase (filter stop_step evs))"

text \<open>
  The steps of a \<^verbatim>\<open>Stop\<close> in the order of the code: each process is signalled and its log
  file closed before the next process is touched.
\<close>

definition stop_sequence :: "transporterServer \<Rightarrow> event list" where
  "stop_sequence t =
     [EvSleep 3, EvKill (pid t)]
     @ (case logfile t of None \<Rightarrow> [] | Some f \<Rightarrow> [EvClose f])
     @ (case proxyCmd t of None \<Rightarrow> [] | Some c \<Rightarrow> [EvKill (proxyPid t)])
     @ (case proxyLogfile t of None \<Rightarrow> [] | Some f \<Rightarrow> [EvClose f])
     @ [EvSend Request_Stop]"

text \<open>The bucket is there: created now, or owned already (part_000, lines 124-128).\<close>

definition bucket_ready :: "gcs_env \<Rightarrow> string \<Rightarrow> GoogleCloudStorage \<Rightarrow> bool" where
  "bucket_ready env bucket gcs =
     (case bucket_Create_res env bucket (Project gcs) of
        None \<Rightarrow> True
      | Some err \<Rightarrow> strings_Contains err already_own)"

text \<open>
  A path element that cleaning keeps as it is, and what cleaning leaves in front of such
  an element when it is the last one of a path.
\<close>

definition plain_elem :: "string \<Rightarrow> bool" where
  "plain_elem x = (CHR ''/'' \<notin> set x \<and> x \<noteq> [] \<and> x \<noteq> ''.'' \<and> x \<noteq> ''..'')"

definition clean_front :: "string \<Rightarrow> string" where
  "clean_front a =
     (let rooted = (a \<noteq> [] \<and> hd a = CHR ''/'');
          st = foldl (clean_step rooted) [] (butlast (path_elems a))
      in (if rooted then ''/'' else [])
         @ (if st = [] then [] else join_elems st @ ''/''))"

text \<open>
  The base file names of the artifacts that \<^verbatim>\<open>uploadFunc\<close> uploads: the database log, the log
  of the zetcd or the cetcd proxy, the monitoring table and the agent's log (agent.go, lines
  65-67 and 565).
\<close>

definition artifact_bases :: "string list" where
  "artifact_bases =
     [filepath_Base (databaseLogPath initial_world),
      filepath_Base (databaseLogPath initial_world @ ''-'' @ Database_String Request_zetcd),
      filepath_Base (databaseLogPath initial_world @ ''-'' @ Database_String Request_cetcd),
      filepath_Base (monitorLogPath initial_world),
      filepath_Base (agentLogPath initial_world)]"

text \<open>
  The cleaned path of the sub-directory and the test name with the dash that follows it:
  what a destination name has in front of the number of the server.
\<close>

definition test_prefix :: "string \<Rightarrow> string \<Rightarrow> string" where
  "test_prefix subDirectory testName = filepath_Join subDirectory (testName @ ''-'')"

section \<open>Concrete inputs\<close>

text \<open>A configuration, and a world in which every call succeeds.\<close>

definition test_cfg :: config where
  "test_cfg = \<lparr>shell = ''sh'', etcdBinaryPath = ''/go/bin/etcd'',
     consulBinaryPath = ''/go/bin/consul'', zetcdBinaryPath = ''/go/bin/zetcd'',
     cetcdBinaryPath = ''/go/bin/cetcd'', WorkingDirectory = ''/home/agent''\<rparr>"

definition quiet_env :: env where
  "quiet_env = \<lparr>exist_res = (\<lambda>n p. True),
     toFile_res = (\<lambda>n txt p. None),
     RemoveAll_res = (\<lambda>n p. None),
     openToAppend_res = (\<lambda>n p. None),
     cmd_Start_res = (\<lambda>n c. Inr 4242),
     Chdir_res = (\<lambda>n p. None),
     MkdirAll_res = (\<lambda>n p. None),
     Kill_res = (\<lambda>n p. None),
     process_List_res = (\<lambda>n p. Inr []),
     WriteToCSV_res = (\<lambda>n f pss. None),
     JWTConfigFromJSON_res = (\<lambda>key. Inr ''config''),
     UploadFile_res = (\<lambda>n bucket src dst. None)\<rparr>"



text \<open>A world in which the process to signal is gone, and one in which the key does not parse.\<close>

definition gone_env :: env where
  "gone_env = quiet_env\<lparr>Kill_res := (\<lambda>n p. Some ''no such process'')\<rparr>"

definition bad_key_env :: env where
  "bad_key_env = quiet_env\<lparr>JWTConfigFromJSON_res := (\<lambda>key. Inl ''invalid key'')\<rparr>"

text \<open>
  A world that takes every key but the empty one, as the parser of the key does, and the
  same world with an uploader that never works.
\<close>

definition strict_env :: env where
  "strict_env = quiet_env\<lparr>JWTConfigFromJSON_res :=
     (\<lambda>key. if key = [] then Inl ''unexpected end of JSON input'' else Inr ''config'')\<rparr>"

definition strict_down_env :: env where
  "strict_down_env = strict_env\<lparr>UploadFile_res := (\<lambda>n bucket src dst. Some ''unavailable'')\<rparr>"

text \<open>The world when the server starts to listen, and three requests.\<close>

definition serving_world :: world where
  "serving_world = CommandFunc_paths test_cfg initial_world"

definition start_req :: Request where
  "start_req = zero_Request\<lparr>Operation := Request_Start, Database := Request_zetcd,
     PeerIPString := ''10.0.0.1___10.0.0.2___10.0.0.3'', ServerIndex := 1, TestName := ''bench'',
     GoogleCloudStorageBucketName := ''bucket''\<rparr>"

definition stop_req :: Request where
  "stop_req = zero_Request\<lparr>Operation := Request_Stop\<rparr>"

definition uploadlog_req :: Request where
  "uploadlog_req = zero_Request\<lparr>Operation := Request_UploadLog,
     GoogleCloudProjectName := ''project'', GoogleCloudStorageBucketName := ''results'',
     GoogleCloudStorageSubDirectory := ''logs''\<rparr>"

text \<open>
  The server and the world that \<open>start_req\<close> leaves behind in \<open>quiet_env\<close> (lemma
  \<open>start_run\<close> below): etcd runs as the second of three peers, with the zetcd proxy.
\<close>

definition running_server :: transporterServer where
  "running_server =
     \<lparr>req = start_req,
      cmd = Some \<lparr>Path = ''/go/bin/etcd'',
         Args = [''/go/bin/etcd'', ''--name'', ''etcd-2'', ''--data-dir'', ''/home/agent/data.etcd'',
           ''--listen-client-urls'', ''http://10.0.0.2:2379'',
           ''--advertise-client-urls'', ''http://10.0.0.2:2379'',
           ''--listen-peer-urls'', ''http://10.0.0.2:2380'',
           ''--initial-advertise-peer-urls'', ''http://10.0.0.2:2380'',
           ''--initial-cluster-token'', ''etcd_token'',
           ''--initial-cluster'',
           ''etcd-1=http://10.0.0.1:2380,etcd-2=http://10.0.0.2:2380,etcd-3=http://10.0.0.3:2380'',
           ''--initial-cluster-state'', ''new''],
         Stdout = Some (File ''/home/agent/database.log'' 3),
         Stderr = Some (File ''/home/agent/database.log'' 3)\<rparr>,
      logfile = Some (File ''/home/agent/database.log'' 3),
      pid = 4242,
      proxyCmd = Some \<lparr>Path = ''/go/bin/zetcd'',
         Args = [''/go/bin/zetcd'', ''-zkaddr'', ''0.0.0.0:2181'', ''-endpoint'', ''http://10.0.0.2:2379''],
         Stdout = Some (File ''/home/agent/database.log-zetcd'' 5),
         Stderr = Some (File ''/home/agent/database.log-zetcd'' 5)\<rparr>,
      proxyLogfile = Some (File ''/home/agent/database.log-zetcd'' 5),
      proxyPid = 4242\<rparr>"

definition running_world :: world where
  "running_world = snd (snd (Transfer test_cfg quiet_env NewTransporterServer start_req serving_world))"

text \<open>The same server without a proxy.\<close>

definition plain_server :: transporterServer where
  "plain_server = running_server\<lparr>proxyCmd := None, proxyLogfile := None, proxyPid := 0\<rparr>"

text \<open>
  The running server with a key in its stored request, and an \<^verbatim>\<open>UploadLog\<close> that carries
  another key and another test name.
\<close>

definition keyed_server :: transporterServer where
  "keyed_server = running_server\<lparr>req := start_req\<lparr>GoogleCloudStorageKey := ''service account key''\<rparr>\<rparr>"

definition rekey_req :: Request where
  "rekey_req = uploadlog_req\<lparr>GoogleCloudStorageKey := ''another key'', TestName := ''second''\<rparr>"

text \<open>A directory of five files, where writing the third one fails.\<close>

definition dir_env :: gcs_env where
  "dir_env = \<lparr>NewClient_res = None,
     bucket_Create_res = (\<lambda>bucket project.
        Some ''googleapi: Error 409: You already own this bucket. Please select another name., conflict''),
     walkRecursive_res = (\<lambda>src. Inr [''/data/f1'', ''/data/f2'', ''/data/f3'', ''/data/f4'', ''/data/f5'']),
     ReadFile_res = (\<lambda>p. Inr ''bytes''),
     writer_Write_res = (\<lambda>p ct bts. if p = ''backup/f3'' then Some ''write failed'' else None),
     writer_Close_res = (\<lambda>p. None)\<rparr>"

definition a_storage :: GoogleCloudStorage where
  "a_storage = \<lparr>JSONKey = ''key'', Project = ''project'', Config = ''config''\<rparr>"

section \<open>Properties\<close>

subsection \<open>Decimal numbers and destination names\<close>

lemma digit_char_inj: "a < 10 \<Longrightarrow> b < 10 \<Longrightarrow> digit_char a = digit_char b \<Longrightarrow> a = b"
  unfolding digit_char_def
  by (subst (asm) nth_eq_iff_index_eq) simp_all

lemma digit_char_not_minus: "digit_char d \<noteq> CHR ''-''"
proof -
  have "digit_char d \<in> set ''0123456789''"
    unfolding digit_char_def by (rule nth_mem) simp
  then show ?thesis by auto
qed

lemma digit_char_not_sep: "digit_char d \<noteq> CHR ''/''"
proof -
  have "digit_char d \<in> set ''0123456789''"
    unfolding digit_char_def by (rule nth_mem) simp
  then show ?thesis by auto
qed

lemma showNat_no_minus: "CHR ''-'' \<notin> set (showNat n)"
proof (induction n rule: showNat.induct)
  case (1 n)
  show ?case
  proof (cases "n < 10")
    case True
    then show ?thesis using digit_char_not_minus [of n] by (simp add: showNat.simps)
  next
    case False
    then show ?thesis using 1 digit_char_not_minus [of "n mod 10"]
      by (subst showNat.simps) auto
  qed
qed

lemma showNat_no_sep: "CHR ''/'' \<notin> set (showNat n)"
proof (induction n rule: showNat.induct)
  case (1 n)
  show ?case
  proof (cases "n < 10")
    case True
    then show ?thesis using digit_char_not_sep [of n] by (simp add: showNat.simps)
  next
    case False
    then show ?thesis using 1 digit_char_not_sep [of "n mod 10"]
      by (subst showNat.simps) auto
  qed
qed

lemma showNat_not_Nil: "showNat n \<noteq> []"
  by (subst showNat.simps) simp

lemma showNat_inj: "showNat m = showNat n \<Longrightarrow> m = n"
proof (induction m arbitrary: n rule: showNat.induct)
  case (1 m)
  show ?case
  proof (cases "m < 10")
    case m: True
    show ?thesis
    proof (cases "n < 10")
      case True
      with m 1(2) show ?thesis
        by (simp add: showNat.simps [of m] showNat.simps [of n] digit_char_inj)
    next
      case False
      with m 1(2) show ?thesis
        using showNat_not_Nil [of "n div 10"]
        by (simp add: showNat.simps [of m] showNat.simps [of n])
    qed
  next
    case m: False
    show ?thesis
    proof (cases "n < 10")
      case True
      with m 1(2) show ?thesis
        using showNat_not_Nil [of "m div 10"]
        by (simp add: showNat.simps [of m] showNat.simps [of n])
    next
      case False
      with m 1(2) have eq: "showNat (m div 10) = showNat (n div 10)"
        and d: "digit_char (m mod 10) = digit_char (n mod 10)"
        by (simp_all add: showNat.simps [of m] showNat.simps [of n])
      from 1(1) [OF m eq] have "m div 10 = n div 10" .
      moreover from d have "m mod 10 = n mod 10" by (simp add: digit_char_inj)
      ultimately show ?thesis by (metis div_mult_mod_eq)
    qed
  qed
qed

text \<open>A number and what follows it can be read back from the text up to the first dash.\<close>

lemma dash_separates:
  assumes "CHR ''-'' \<notin> set x" "CHR ''-'' \<notin> set y" "x @ CHR ''-'' # a = y @ CHR ''-'' # b"
  shows "x = y \<and> a = b"
proof -
  have "takeWhile (\<lambda>c. c \<noteq> CHR ''-'') (x @ CHR ''-'' # a) = x"
    using assms(1) by (auto simp: takeWhile_tail)
  moreover have "takeWhile (\<lambda>c. c \<noteq> CHR ''-'') (y @ CHR ''-'' # b) = y"
    using assms(2) by (auto simp: takeWhile_tail)
  ultimately have "x = y" using assms(3) by simp
  with assms(3) show ?thesis by simp
qed

subsection \<open>Cleaning a path whose last element is a plain name\<close>

lemma path_elems_not_Nil [simp]: "path_elems p \<noteq> []"
  by (induction p) (auto split: list.splits)

lemma path_elems_no_sep: "CHR ''/'' \<notin> set x \<Longrightarrow> path_elems x = [x]"
  by (induction x) auto

lemma path_elems_append:
  "CHR ''/'' \<notin> set x \<Longrightarrow>
   path_elems (a @ x) = butlast (path_elems a) @ [last (path_elems a) @ x]"
proof (induction a)
  case Nil
  then show ?case by (simp add: path_elems_no_sep)
next
  case (Cons c a)
  then show ?case by (auto split: list.splits)
qed

lemma path_elems_ends_sep:
  "a \<noteq> [] \<Longrightarrow> last a = CHR ''/'' \<Longrightarrow> last (path_elems a) = [] \<and> 2 \<le> length (path_elems a)"
proof (induction a)
  case Nil
  then show ?case by simp
next
  case (Cons c a)
  show ?case
  proof (cases "a = []")
    case True
    with Cons.prems show ?thesis by simp
  next
    case False
    with Cons have ih: "last (path_elems a) = []" "2 \<le> length (path_elems a)" by simp_all
    then obtain e e' es where "path_elems a = e # e' # es"
      by (cases "path_elems a"; cases "tl (path_elems a)") auto
    with ih show ?thesis by auto
  qed
qed

lemma join_elems_snoc: "join_elems (st @ [x]) = (if st = [] then x else join_elems st @ ''/'' @ x)"
  by (induction st rule: join_elems.induct) auto

lemma filepath_Clean_last_elem:
  assumes "a = [] \<or> last a = CHR ''/''" and "plain_elem x"
  shows "filepath_Clean (a @ x) = clean_front a @ x"
proof -
  from assms(2) have x: "CHR ''/'' \<notin> set x" "x \<noteq> []" "x \<noteq> ''.''" "x \<noteq> ''..''"
    by (auto simp: plain_elem_def)
  have hdx: "hd x \<noteq> CHR ''/''" using x(1,2) by (cases x) auto
  have la: "last (path_elems a) = []"
  proof (cases "a = []")
    case True
    then show ?thesis by simp
  next
    case False
    with assms(1) show ?thesis by (simp add: path_elems_ends_sep)
  qed
  have pe: "path_elems (a @ x) = butlast (path_elems a) @ [x]"
    by (simp add: path_elems_append [OF x(1)] la)
  have rooted: "(hd (a @ x) = CHR ''/'') = (a \<noteq> [] \<and> hd a = CHR ''/'')"
    using hdx by (cases a) auto
  have step: "clean_step r st x = st @ [x]" for r st
    using x by (simp add: clean_step_def)
  show ?thesis
    using x(2)
    by (simp add: filepath_Clean_def clean_front_def Let_def pe rooted step join_elems_snoc)
qed

text \<open>
  A text is what comes up to its last separator, followed by its last element; the first
  part is empty or ends with the separator.
\<close>

lemma split_at_last_sep:
  "\<exists>front lst. s = front @ lst \<and> (front = [] \<or> last front = CHR ''/'') \<and> CHR ''/'' \<notin> set lst"
proof (induction s rule: rev_induct)
  case Nil
  then show ?case by simp
next
  case (snoc c s)
  show ?case
  proof (cases "c = CHR ''/''")
    case True
    then show ?thesis by (intro exI [of _ "s @ [c]"] exI [of _ "[]"]) simp
  next
    case False
    from snoc obtain front lst where "s = front @ lst" "front = [] \<or> last front = CHR ''/''"
      "CHR ''/'' \<notin> set lst" by blast
    with False show ?thesis by (intro exI [of _ front] exI [of _ "lst @ [c]"]) simp
  qed
qed

text \<open>What cleaning leaves in front of a last element is empty or ends with the separator.\<close>

lemma clean_front_ends_sep: "clean_front a = [] \<or> last (clean_front a) = CHR ''/''"
  by (simp add: clean_front_def Let_def)

text \<open>
  The two forms of a destination name. With a test name in front of the number, the name
  is \<open>test_prefix\<close>, the number, a dash and the base name; \<open>test_prefix\<close> ends with a dash, and
  for a test name without a separator it is the cleaned sub-directory, the test name and
  the dash. With a base name that starts with the test name, the name is the cleaned
  sub-directory and the base name.
\<close>

lemma test_prefix_form:
  "\<exists>front tl. tn = front @ tl \<and> CHR ''/'' \<notin> set tl
     \<and> test_prefix sub tn = clean_front ((if sub \<noteq> [] then sub @ ''/'' else []) @ front) @ tl @ ''-''"
proof -
  obtain tf tl where tn: "tn = tf @ tl" and tf: "tf = [] \<or> last tf = CHR ''/''"
    and tl: "CHR ''/'' \<notin> set tl"
    using split_at_last_sep [of tn] by blast
  let ?a = "(if sub \<noteq> [] then sub @ ''/'' else []) @ tf"
  have a: "?a = [] \<or> last ?a = CHR ''/''" using tf by auto
  let ?x = "tl @ ''-''"
  have "CHR ''-'' \<in> set ?x" by simp
  then have "?x \<noteq> s" if "CHR ''-'' \<notin> set s" for s using that by metis
  from this [of "[]"] this [of "''.''"] this [of "''..''"]
  have "?x \<noteq> [] \<and> ?x \<noteq> ''.'' \<and> ?x \<noteq> ''..''" by simp
  moreover have "CHR ''/'' \<notin> set ?x" using tl by simp
  ultimately have "plain_elem ?x" unfolding plain_elem_def by blast
  from filepath_Clean_last_elem [OF a this]
  have "filepath_Clean (?a @ ?x) = clean_front ?a @ ?x" .
  moreover have "test_prefix sub tn = filepath_Clean (?a @ ?x)"
    by (simp add: test_prefix_def filepath_Join_def tn)
  ultimately have "test_prefix sub tn = clean_front ?a @ tl @ ''-''" by simp
  with tn tl show ?thesis by blast
qed

lemma test_prefix_ends_dash: "\<exists>front. test_prefix sub tn = front @ ''-''"
proof -
  from test_prefix_form [of tn sub] obtain front tl where
    "test_prefix sub tn = clean_front ((if sub \<noteq> [] then sub @ ''/'' else []) @ front) @ tl @ ''-''"
    by blast
  then have "test_prefix sub tn
      = (clean_front ((if sub \<noteq> [] then sub @ ''/'' else []) @ front) @ tl) @ ''-''" by simp
  then show ?thesis by blast
qed

lemma test_prefix_plain:
  assumes "CHR ''/'' \<notin> set tn"
  shows "test_prefix sub tn = clean_front (if sub \<noteq> [] then sub @ ''/'' else []) @ tn @ ''-''"
proof -
  from test_prefix_form [of tn sub] obtain front tl where
    f: "tn = front @ tl"
    "test_prefix sub tn = clean_front ((if sub \<noteq> [] then sub @ ''/'' else []) @ front) @ tl @ ''-''"
    by blast
  show ?thesis
  proof (cases "front = []")
    case True
    with f show ?thesis by simp
  next
    case False
    let ?a = "if sub \<noteq> [] then sub @ ''/'' else []"
    have a: "?a = [] \<or> last ?a = CHR ''/''" by simp
    let ?x = "tn @ ''-''"
    have "CHR ''-'' \<in> set ?x" by simp
    then have "?x \<noteq> s" if "CHR ''-'' \<notin> set s" for s using that by metis
    from this [of "[]"] this [of "''.''"] this [of "''..''"]
    have "?x \<noteq> [] \<and> ?x \<noteq> ''.'' \<and> ?x \<noteq> ''..''" by simp
    moreover have "CHR ''/'' \<notin> set ?x" using assms by simp
    ultimately have "plain_elem ?x" unfolding plain_elem_def by blast
    from filepath_Clean_last_elem [OF a this]
    have "filepath_Clean (?a @ ?x) = clean_front ?a @ ?x" .
    moreover have "test_prefix sub tn = filepath_Clean (?a @ ?x)"
      by (simp add: test_prefix_def filepath_Join_def)
    ultimately show ?thesis by simp
  qed
qed

lemma dstPath_with_test_name:
  assumes "\<not> strings_HasPrefix b tn" and "CHR ''/'' \<notin> set b"
  shows "dstPath sub tn i b = test_prefix sub tn @ showNat (i + 1) @ ''-'' @ b"
proof -
  obtain tf tl where tn: "tn = tf @ tl" and tf: "tf = [] \<or> last tf = CHR ''/''"
    and tl: "CHR ''/'' \<notin> set tl"
    using split_at_last_sep [of tn] by blast
  let ?a = "(if sub \<noteq> [] then sub @ ''/'' else []) @ tf"
  have a: "?a = [] \<or> last ?a = CHR ''/''" using tf by auto
  have plain: "plain_elem (tl @ ''-'' @ r)" if "CHR ''/'' \<notin> set r" for r
  proof -
    let ?x = "tl @ ''-'' @ r"
    have "CHR ''-'' \<in> set ?x" by simp
    then have "?x \<noteq> s" if "CHR ''-'' \<notin> set s" for s using that by metis
    from this [of "[]"] this [of "''.''"] this [of "''..''"]
    have "?x \<noteq> [] \<and> ?x \<noteq> ''.'' \<and> ?x \<noteq> ''..''" by simp
    moreover have "CHR ''/'' \<notin> set ?x" using tl that by simp
    ultimately show ?thesis unfolding plain_elem_def by blast
  qed
  let ?r = "showNat (i + 1) @ ''-'' @ b"
  have r: "CHR ''/'' \<notin> set ?r" using assms(2) showNat_no_sep [of "i + 1"] by simp
  from filepath_Clean_last_elem [OF a plain [OF r]]
  have "filepath_Clean (?a @ tl @ ''-'' @ ?r) = clean_front ?a @ tl @ ''-'' @ ?r" .
  moreover have "dstPath sub tn i b = filepath_Clean (?a @ tl @ ''-'' @ ?r)"
    using assms(1) by (simp add: dstPath_def filepath_Join_def tn)
  moreover from filepath_Clean_last_elem [OF a plain [of "[]"]]
  have "filepath_Clean (?a @ tl @ ''-'') = clean_front ?a @ tl @ ''-''" by simp
  moreover have "test_prefix sub tn = filepath_Clean (?a @ tl @ ''-'')"
    by (simp add: test_prefix_def filepath_Join_def tn)
  ultimately show ?thesis by simp
qed

lemma dstPath_without_test_name:
  assumes "strings_HasPrefix b tn" and "plain_elem b"
  shows "dstPath sub tn i b = clean_front (if sub \<noteq> [] then sub @ ''/'' else []) @ b"
proof -
  let ?a = "if sub \<noteq> [] then sub @ ''/'' else []"
  have a: "?a = [] \<or> last ?a = CHR ''/''" by simp
  from assms(2) have "b \<noteq> []" by (simp add: plain_elem_def)
  then have "dstPath sub tn i b = filepath_Clean (?a @ b)"
    using assms(1) by (simp add: dstPath_def filepath_Join_def)
  with filepath_Clean_last_elem [OF a assms(2)] show ?thesis by simp
qed

text \<open>The last element of a path can be read back from the path.\<close>

lemma rev_last_elem:
  assumes "f = [] \<or> last f = CHR ''/''" and "CHR ''/'' \<notin> set x"
  shows "takeWhile (\<lambda>c. c \<noteq> CHR ''/'') (rev (f @ x)) = rev x"
proof -
  have "takeWhile (\<lambda>c. c \<noteq> CHR ''/'') (rev f) = []"
    using assms(1) by (cases f rule: rev_cases) auto
  moreover have "takeWhile (\<lambda>c. c \<noteq> CHR ''/'') (rev x @ rev f)
      = rev x @ takeWhile (\<lambda>c. c \<noteq> CHR ''/'') (rev f)"
    using assms(2) by (intro takeWhile_append2) auto
  ultimately show ?thesis by simp
qed

lemma last_elem_unique:
  assumes "f1 = [] \<or> last f1 = CHR ''/''" and "f2 = [] \<or> last f2 = CHR ''/''"
    and "CHR ''/'' \<notin> set x1" and "CHR ''/'' \<notin> set x2" and "f1 @ x1 = f2 @ x2"
  shows "x1 = x2"
proof -
  from rev_last_elem [OF assms(1,3)] rev_last_elem [OF assms(2,4)] assms(5)
  have "rev x1 = rev x2" by simp
  then show ?thesis by simp
qed

text \<open>
  \<^verbatim>\<open>filepath.Base\<close> gives the last element, and putting a path under the working directory
  (lines 129-131 and 173-190, at every \<^verbatim>\<open>Start\<close>) keeps it: the base names of the artifacts
  are those of the paths the program starts with.
\<close>

lemma filepath_Base_last_elem:
  assumes "a = [] \<or> last a = CHR ''/''" and "plain_elem x"
  shows "filepath_Base (a @ x) = x"
proof -
  from assms(2) have x: "CHR ''/'' \<notin> set x" "x \<noteq> []" by (simp_all add: plain_elem_def)
  then obtain y c where y: "x = y @ [c]" "c \<noteq> CHR ''/''" by (cases x rule: rev_cases) auto
  then have "strip_trailing_sep (a @ x) = a @ x" by simp
  with x(2) rev_last_elem [OF assms(1) x(1)] show ?thesis
    by (simp add: filepath_Base_def Let_def del: strip_trailing_sep.simps rev_append)
qed

lemma under_WorkingDirectory_keeps_base:
  assumes "a = [] \<or> last a = CHR ''/''" and "plain_elem x"
  shows "filepath_Base (under_WorkingDirectory cfg (a @ x)) = x"
proof (cases "filepath_HasPrefix (a @ x) (WorkingDirectory cfg)")
  case True
  with filepath_Base_last_elem [OF assms] show ?thesis by (simp add: under_WorkingDirectory_def)
next
  case False
  then have wd: "WorkingDirectory cfg \<noteq> []"
    by (auto simp: filepath_HasPrefix_def strings_HasPrefix_def)
  let ?f = "WorkingDirectory cfg @ ''/'' @ a"
  have f: "?f = [] \<or> last ?f = CHR ''/''" using assms(1) by auto
  from False wd have "under_WorkingDirectory cfg (a @ x) = filepath_Clean (?f @ x)"
    by (simp add: under_WorkingDirectory_def filepath_Join_def)
  with filepath_Clean_last_elem [OF f assms(2)]
  have "under_WorkingDirectory cfg (a @ x) = clean_front ?f @ x" by simp
  with filepath_Base_last_elem [OF clean_front_ends_sep assms(2), of ?f] show ?thesis by simp
qed

text \<open>
  The base names of the artifacts: the five names, each a plain path element, none of
  them the end of another one after a dash.
\<close>

lemma artifact_bases_eval:
  "artifact_bases =
     [''database.log'', ''database.log-zetcd'', ''database.log-cetcd'', ''monitor.csv'', ''agent.log'']"
  by (simp add: artifact_bases_def initial_world_def filepath_Base_def)

lemma artifact_bases_plain: "b \<in> set artifact_bases \<Longrightarrow> plain_elem b"
  by (auto simp: artifact_bases_eval plain_elem_def)

lemma artifact_bases_no_dash_tail:
  assumes "b1 \<in> set artifact_bases" and "b2 \<in> set artifact_bases"
  shows "b1 \<noteq> y @ CHR ''-'' # b2"
proof
  assume "b1 = y @ CHR ''-'' # b2"
  then have "suffix (CHR ''-'' # b2) b1" by (simp add: suffix_def)
  with assms show False by (auto simp: artifact_bases_eval suffix_to_prefix)
qed

text \<open>Two texts that end with a dash, each followed by a base name.\<close>

lemma same_base_after_dash:
  assumes "b1 \<in> set artifact_bases" and "b2 \<in> set artifact_bases"
    and "s1 @ CHR ''-'' # b1 = s2 @ CHR ''-'' # b2"
  shows "b1 = b2 \<and> s1 = s2"
proof -
  from assms(3) have "(s1 @ ''-'') @ b1 = (s2 @ ''-'') @ b2" by simp
  then obtain us where us: "(s1 @ ''-'' = (s2 @ ''-'') @ us \<and> us @ b1 = b2)
      \<or> ((s1 @ ''-'') @ us = s2 @ ''-'' \<and> b1 = us @ b2)"
    unfolding append_eq_append_conv2 by blast
  have "us = []"
  proof (rule ccontr)
    assume ne: "us \<noteq> []"
    then obtain u' c where u: "us = u' @ [c]" by (cases us rule: rev_cases) auto
    from us show False
    proof
      assume h: "s1 @ ''-'' = (s2 @ ''-'') @ us \<and> us @ b1 = b2"
      with u have "c = CHR ''-''" by (metis append_assoc last_snoc)
      with h u have "b2 = u' @ CHR ''-'' # b1" by simp
      with artifact_bases_no_dash_tail [OF assms(2,1)] show False by blast
    next
      assume h: "(s1 @ ''-'') @ us = s2 @ ''-'' \<and> b1 = us @ b2"
      with u have "c = CHR ''-''" by (metis append_assoc last_snoc)
      with h u have "b1 = u' @ CHR ''-'' # b2" by simp
      with artifact_bases_no_dash_tail [OF assms(1,2)] show False by blast
    qed
  qed
  with us show ?thesis by auto
qed

lemmas path_eval = filepath_Join_def filepath_Clean_def clean_step_def strings_HasPrefix_def
  filepath_HasPrefix_def

text \<open>
  Claim C7, as stated, fails: the derivation is a function, but it is not injective on the
  triples. A base name that starts with the test name is taken as it is, without the
  number of the server; every base name starts with the empty test name. So the database
  logs of the servers 0 and 1 of a test without a name both go to \<^verbatim>\<open>logs/database.log\<close>,
  and so does the one of server 3 of the test \<^verbatim>\<open>da\<close>.
\<close>

theorem dstPath_without_index_collision:
  "([], 0::nat, ''database.log'') \<noteq> ([], 1::nat, ''database.log'')
   \<and> ([], 0::nat, ''database.log'') \<noteq> (''da'', 3::nat, ''database.log'')
   \<and> ''database.log'' \<in> set artifact_bases
   \<and> dstPath ''logs'' [] 0 ''database.log'' = ''logs/database.log''
   \<and> dstPath ''logs'' [] 1 ''database.log'' = ''logs/database.log''
   \<and> dstPath ''logs'' ''da'' 3 ''database.log'' = ''logs/database.log''"
  by (simp add: dstPath_def path_eval artifact_bases_eval)

text \<open>
  Claim C7, amended: the destination path is a function of the sub-directory, the test
  name, the server index and the base file name. Under one sub-directory, two triples with
  the base file names of the program's artifacts have the same destination path exactly
  when the base file name is the same and either it starts with both test names (then
  neither the test name nor the server index is in the path), or it starts with neither,
  the server index is the same, and the two test names give the same cleaned path in front
  of the number. For test names without a path separator the last condition says that
  the test names are the same.
\<close>

theorem dstPath_same_exactly_when:
  assumes "b1 \<in> set artifact_bases" and "b2 \<in> set artifact_bases"
  shows "(dstPath sub tn1 i1 b1 = dstPath sub tn2 i2 b2) =
           (b1 = b2 \<and>
            (if strings_HasPrefix b1 tn1 then strings_HasPrefix b2 tn2
             else \<not> strings_HasPrefix b2 tn2 \<and> i1 = i2
                  \<and> test_prefix sub tn1 = test_prefix sub tn2))
    \<and> (CHR ''/'' \<notin> set tn1 \<and> CHR ''/'' \<notin> set tn2 \<longrightarrow>
         (test_prefix sub tn1 = test_prefix sub tn2) = (tn1 = tn2))"
proof
  let ?a = "if sub \<noteq> [] then sub @ ''/'' else []"
  note p1 = artifact_bases_plain [OF assms(1)] and p2 = artifact_bases_plain [OF assms(2)]
  then have s1: "CHR ''/'' \<notin> set b1" and s2: "CHR ''/'' \<notin> set b2"
    by (simp_all add: plain_elem_def)
  have mixed: "dstPath sub tn i b \<noteq> dstPath sub tn' i' b'"
    if b: "b \<in> set artifact_bases" "b' \<in> set artifact_bases"
      and h: "strings_HasPrefix b tn" "\<not> strings_HasPrefix b' tn'" for tn i b tn' i' b'
  proof
    assume eq: "dstPath sub tn i b = dstPath sub tn' i' b'"
    note p = artifact_bases_plain [OF b(1)] and p' = artifact_bases_plain [OF b(2)]
    then have s: "CHR ''/'' \<notin> set b" "CHR ''/'' \<notin> set b'" by (simp_all add: plain_elem_def)
    from test_prefix_form [of tn' sub] obtain front tl where
      f: "CHR ''/'' \<notin> set tl"
      "test_prefix sub tn' = clean_front (?a @ front) @ tl @ ''-''" by blast
    from eq dstPath_without_test_name [OF h(1) p, of sub i]
      dstPath_with_test_name [OF h(2) s(2), of sub i'] f(2)
    have "clean_front ?a @ b
        = clean_front (?a @ front) @ (tl @ ''-'' @ showNat (i' + 1) @ ''-'' @ b')" by simp
    moreover have "CHR ''/'' \<notin> set (tl @ ''-'' @ showNat (i' + 1) @ ''-'' @ b')"
      using f(1) s(2) showNat_no_sep [of "i' + 1"] by simp
    ultimately have "b = tl @ ''-'' @ showNat (i' + 1) @ ''-'' @ b'"
      using last_elem_unique [OF clean_front_ends_sep clean_front_ends_sep s(1)] by blast
    then have "b = (tl @ ''-'' @ showNat (i' + 1)) @ CHR ''-'' # b'" by simp
    with artifact_bases_no_dash_tail [OF b] show False by blast
  qed
  show "(dstPath sub tn1 i1 b1 = dstPath sub tn2 i2 b2) =
           (b1 = b2 \<and>
            (if strings_HasPrefix b1 tn1 then strings_HasPrefix b2 tn2
             else \<not> strings_HasPrefix b2 tn2 \<and> i1 = i2
                  \<and> test_prefix sub tn1 = test_prefix sub tn2))"
    (is "?same = ?cond")
  proof (cases "strings_HasPrefix b1 tn1")
    case h1: True
    show ?thesis
    proof (cases "strings_HasPrefix b2 tn2")
      case True
      from h1 True have "?cond = (b1 = b2)" by simp
      moreover from dstPath_without_test_name [OF h1 p1, of sub i1]
        dstPath_without_test_name [OF True p2, of sub i2]
      have "?same = (b1 = b2)" by simp
      ultimately show ?thesis by simp
    next
      case False
      from h1 False have "\<not> ?cond" by simp
      with mixed [OF assms h1 False, of i1 i2] show ?thesis by simp
    qed
  next
    case h1: False
    show ?thesis
    proof (cases "strings_HasPrefix b2 tn2")
      case True
      from h1 True have "\<not> ?cond" by simp
      moreover from mixed [OF assms(2,1) True h1, of i2 i1] have "\<not> ?same" by simp
      ultimately show ?thesis by simp
    next
      case False
      note d1 = dstPath_with_test_name [OF h1 s1, of sub i1]
        and d2 = dstPath_with_test_name [OF False s2, of sub i2]
      from test_prefix_ends_dash [of sub tn1] obtain x1 where x1: "test_prefix sub tn1 = x1 @ ''-''"
        by blast
      from test_prefix_ends_dash [of sub tn2] obtain x2 where x2: "test_prefix sub tn2 = x2 @ ''-''"
        by blast
      have fwd: "i1 = i2 \<and> b1 = b2 \<and> test_prefix sub tn1 = test_prefix sub tn2" if eq: ?same
      proof -
        from eq d1 d2 x1 x2
        have "(x1 @ ''-'' @ showNat (i1 + 1)) @ CHR ''-'' # b1
            = (x2 @ ''-'' @ showNat (i2 + 1)) @ CHR ''-'' # b2" by simp
        from same_base_after_dash [OF assms this]
        have b: "b1 = b2" and "x1 @ ''-'' @ showNat (i1 + 1) = x2 @ ''-'' @ showNat (i2 + 1)"
          by simp_all
        then have "rev (x1 @ ''-'' @ showNat (i1 + 1)) = rev (x2 @ ''-'' @ showNat (i2 + 1))"
          by (simp only:)
        then have "rev (showNat (i1 + 1)) @ CHR ''-'' # rev x1
            = rev (showNat (i2 + 1)) @ CHR ''-'' # rev x2" by simp
        then have "rev (showNat (i1 + 1)) = rev (showNat (i2 + 1)) \<and> rev x1 = rev x2"
          by (intro dash_separates) (simp_all add: showNat_no_minus)
        then have "showNat (i1 + 1) = showNat (i2 + 1)" and "x1 = x2" by simp_all
        with b showNat_inj [of "i1 + 1" "i2 + 1"] x1 x2 show ?thesis by simp
      qed
      have bwd: ?same if "i1 = i2 \<and> b1 = b2 \<and> test_prefix sub tn1 = test_prefix sub tn2"
        using that d1 d2 by simp
      from h1 False have "?cond = (i1 = i2 \<and> b1 = b2 \<and> test_prefix sub tn1 = test_prefix sub tn2)"
        by auto
      with fwd bwd show ?thesis by blast
    qed
  qed
  show "CHR ''/'' \<notin> set tn1 \<and> CHR ''/'' \<notin> set tn2 \<longrightarrow>
         (test_prefix sub tn1 = test_prefix sub tn2) = (tn1 = tn2)"
    by (auto simp: test_prefix_plain)
qed

theorem dstPath_same_exactly_when_witness:
  "''database.log'' \<in> set artifact_bases \<and> ''monitor.csv'' \<in> set artifact_bases
   \<and> CHR ''/'' \<notin> set ''bench'' \<and> CHR ''/'' \<notin> set ''bench2''
   \<and> dstPath ''logs'' ''bench'' 0 ''database.log'' \<noteq> dstPath ''logs'' ''bench'' 1 ''database.log''
   \<and> dstPath ''logs'' ''bench'' 0 ''database.log'' \<noteq> dstPath ''logs'' ''bench'' 0 ''monitor.csv''
   \<and> dstPath ''logs'' ''bench'' 0 ''database.log'' \<noteq> dstPath ''logs'' ''bench2'' 0 ''database.log''
   \<and> dstPath ''logs'' ''data'' 0 ''database.log'' = dstPath ''logs'' ''d'' 7 ''database.log''"
proof -
  have b: "''database.log'' \<in> set artifact_bases" "''monitor.csv'' \<in> set artifact_bases"
    by (simp_all add: artifact_bases_eval)
  from dstPath_same_exactly_when [OF b(1) b(1), of "''logs''" "''bench''" 0 "''bench''" 1]
    dstPath_same_exactly_when [OF b(1) b(2), of "''logs''" "''bench''" 0 "''bench''" 0]
    dstPath_same_exactly_when [OF b(1) b(1), of "''logs''" "''bench''" 0 "''bench2''" 0]
    dstPath_same_exactly_when [OF b(1) b(1), of "''logs''" "''data''" 0 "''d''" 7]
    b
  show ?thesis by (simp add: strings_HasPrefix_def)
qed

subsection \<open>The retry loop and the upload pass\<close>

lemmas world_ops = emit_def tick_def plog_def time_Sleep_def u_UploadFile_def



lemma retry_extends:
  "\<exists>evs n. snd (upload_retry env b s d k u w) = w\<lparr>ticks := ticks w + n, trace := trace w @ evs\<rparr>
     \<and> (k < 30 \<longrightarrow> EvUploadFile b s d \<in> set evs)
     \<and> count_list evs (EvUploadFile b s d) \<le> 30 - k
     \<and> (\<forall>a. EvLog LError ''uploadFunc error (%v)'' a \<notin> set evs)"
proof (induction env b s d k u w rule: upload_retry.induct)
  case (1 env b s d k u w)
  show ?case
  proof (cases "k < 30")
    case False
    then show ?thesis
      by (subst upload_retry.simps) (auto intro!: exI [of _ "[]"] exI [of _ 0])
  next
    case k: True
    show ?thesis
    proof (cases "UploadFile_res env (ticks w) b s d")
      case None
      with k show ?thesis
        by (subst upload_retry.simps)
           (auto simp: world_ops intro!: exI [of _ "[EvUploadFile b s d]"] exI [of _ 1])
    next
      case (Some e)
      let ?w = "time_Sleep 2 (plog LError ''u.UploadFile error... sleep and retry... (%v)''
              [Err (ExtError e)] (tick (emit (EvUploadFile b s d) w)))"
      have step: "upload_retry env b s d k u w = upload_retry env b s d (k + 1) (Some e) ?w"
        using k Some by (subst upload_retry.simps) (simp add: u_UploadFile_def)
      from 1 k Some
      obtain evs n where r: "snd (upload_retry env b s d (k + 1) (Some e) ?w)
            = ?w\<lparr>ticks := ticks ?w + n, trace := trace ?w @ evs\<rparr>"
          and c: "count_list evs (EvUploadFile b s d) \<le> 30 - (k + 1)"
          and q: "\<forall>a. EvLog LError ''uploadFunc error (%v)'' a \<notin> set evs"
        by (auto simp: u_UploadFile_def)
      let ?evs = "[EvUploadFile b s d, EvLog LError ''u.UploadFile error... sleep and retry... (%v)''
              [Err (ExtError e)], EvSleep 2] @ evs"
      have "snd (upload_retry env b s d k u w) = w\<lparr>ticks := ticks w + Suc n, trace := trace w @ ?evs\<rparr>"
        unfolding step r by (simp add: world_ops)
      moreover have "EvUploadFile b s d \<in> set ?evs" by simp
      moreover have "count_list ?evs (EvUploadFile b s d) \<le> 30 - k" using c k by simp
      moreover have "\<forall>a. EvLog LError ''uploadFunc error (%v)'' a \<notin> set ?evs" using q by simp
      ultimately show ?thesis by blast
    qed
  qed
qed


lemma new_events_ext [simp]: "new_events w (w\<lparr>ticks := n, trace := trace w @ evs\<rparr>) = evs"
  by (simp add: new_events_def)

lemma upload_artifact_extends:
  "\<exists>evs n. snd (upload_artifact env t fmt src u w) = w\<lparr>ticks := ticks w + n, trace := trace w @ evs\<rparr>
     \<and> EvUploadFile (GoogleCloudStorageBucketName (req t)) src (artifact_dst t src) \<in> set evs
     \<and> (\<forall>a. EvLog LError ''uploadFunc error (%v)'' a \<notin> set evs)"
proof -
  let ?w = "plog LInfo fmt [Str src, Str (artifact_dst t src)] w"
  from retry_extends [of env "GoogleCloudStorageBucketName (req t)" src "artifact_dst t src" 0 u ?w]
  obtain evs n where
    "snd (upload_retry env (GoogleCloudStorageBucketName (req t)) src (artifact_dst t src) 0 u ?w)
       = ?w\<lparr>ticks := ticks ?w + n, trace := trace ?w @ evs\<rparr>"
    "EvUploadFile (GoogleCloudStorageBucketName (req t)) src (artifact_dst t src) \<in> set evs"
    "\<forall>a. EvLog LError ''uploadFunc error (%v)'' a \<notin> set evs"
    by auto
  then show ?thesis
    by (intro exI [of _ "EvLog LInfo fmt [Str src, Str (artifact_dst t src)] # evs"] exI [of _ n])
       (simp add: upload_artifact_def Let_def world_ops)
qed

lemma upload_proxy_log_extends:
  "\<exists>evs n. upload_proxy_log env t w = w\<lparr>ticks := ticks w + n, trace := trace w @ evs\<rparr>
     \<and> (\<forall>a. EvLog LError ''uploadFunc error (%v)'' a \<notin> set evs)"
proof (cases "Database (req t) = Request_zetcd \<or> Database (req t) = Request_cetcd")
  case False
  then show ?thesis
    by (intro exI [of _ "[]"] exI [of _ 0]) (simp add: upload_proxy_log_def Let_def)
next
  case db: True
  let ?dpath = "databaseLogPath w @ ''-'' @ Database_String (Database (req t))"
  show ?thesis
  proof (cases "exist_res env (ticks w) ?dpath")
    case False
    with db show ?thesis
      by (intro exI [of _ "[EvLog LError ''%q is expected, but doesn't exist!'' [Str ?dpath]]"] exI [of _ 1])
         (auto simp: upload_proxy_log_def Let_def exist_def world_ops)
  next
    case True
    from upload_artifact_extends [of env t "''uploading database log [%q -> %q]''" ?dpath None "tick w"]
    obtain evs n where "snd (upload_artifact env t ''uploading database log [%q -> %q]'' ?dpath None (tick w))
       = (tick w)\<lparr>ticks := ticks (tick w) + n, trace := trace (tick w) @ evs\<rparr>"
      "\<forall>a. EvLog LError ''uploadFunc error (%v)'' a \<notin> set evs" by blast
    with db True show ?thesis
      by (intro exI [of _ evs] exI [of _ "Suc n"])
         (auto simp: upload_proxy_log_def Let_def exist_def world_ops)
  qed
qed

lemma uploadFunc_result:
  "fst (uploadFunc env t w) =
     (case NewGoogleCloudStorage env (GoogleCloudStorageKey (req t)) (GoogleCloudProjectName (req t)) of
        Inl err \<Rightarrow> Some err | Inr u \<Rightarrow> None)"
  by (simp add: uploadFunc_def Let_def split: sum.splits prod.splits)








subsection \<open>The calls as updates of the world\<close>

lemma new_events_append:
  "trace w1 = trace w @ a \<Longrightarrow> trace w2 = trace w1 @ b \<Longrightarrow> new_events w w2 = a @ b"
  by (simp add: new_events_def)

lemma file_Close_alt:
  "file_Close fo w = w\<lparr>trace := trace w @ (case fo of None \<Rightarrow> [] | Some f \<Rightarrow> [EvClose f])\<rparr>"
  by (simp add: file_Close_def emit_def split: option.splits)

lemma file_Sync_alt:
  "file_Sync fo w = w\<lparr>trace := trace w @ (case fo of None \<Rightarrow> [] | Some f \<Rightarrow> [EvSync f])\<rparr>"
  by (simp add: file_Sync_def emit_def split: option.splits)

lemmas calls = exist_def toFile_def os_RemoveAll_def os_Chdir_def os_MkdirAll_def
  openToAppend_def cmd_Start_def syscall_Kill_def file_Close_alt file_Sync_alt send_uploadSig_def

lemma launch_alt:
  "launch env name flags f w =
     (let c = (exec_Command name flags)\<lparr>Stdout := Some f, Stderr := Some f\<rparr>;
          cmdString = Path c @ '' '' @ strings_Join flags '' '' in
      (case cmd_Start_res env (ticks w) c of Inl e \<Rightarrow> Inl e | Inr p \<Rightarrow> Inr (c, p),
       w\<lparr>ticks := Suc (ticks w),
         trace := trace w @ [EvLog LInfo ''starting binary %q'' [Str cmdString], EvCmdStart c]
           @ (case cmd_Start_res env (ticks w) c of
                Inl e \<Rightarrow> []
              | Inr p \<Rightarrow> [EvLog LInfo ''started binary %q [PID: %d]'' [Str cmdString, Num p],
                          EvGoWait c])\<rparr>))"
  by (simp add: launch_def Let_def world_ops calls split: sum.split)

lemma Transfer_UploadLog_alt:
  "Transfer_UploadLog t w =
     (if uploadSig w = [] then Ok 0 else Blocked,
      w\<lparr>trace := trace w
           @ [EvSleep 3,
              EvLog LInfo ''just uploading logs without stoppping %q [PID: %d]''
                [Str (Database_String (Database (req t))), Num (pid t)]]
           @ (case logfile t of None \<Rightarrow> [] | Some f \<Rightarrow> [EvSync f])
           @ (if uploadSig w = [] then [EvSend Request_UploadLog] else []),
         uploadSig := (if uploadSig w = [] then [Request_UploadLog] else uploadSig w)\<rparr>)"
  by (simp add: Transfer_UploadLog_def Let_def world_ops calls)

subsection \<open>The upload pass inside the monitoring loop\<close>

lemma uploadFunc_extends:
  "\<exists>evs n. snd (uploadFunc env t w) = w\<lparr>ticks := ticks w + n, trace := trace w @ evs\<rparr>
     \<and> (\<forall>a. EvLog LError ''uploadFunc error (%v)'' a \<notin> set evs)"
proof (cases "NewGoogleCloudStorage env (GoogleCloudStorageKey (req t)) (GoogleCloudProjectName (req t))")
  case (Inl e)
  then show ?thesis
    by (intro exI [of _ "[EvLog LInfo ''stopped monitoring, uploading to storage %q''
          [Str (GoogleCloudProjectName (req t))]]"] exI [of _ 0])
       (simp add: uploadFunc_def Let_def world_ops)
next
  case (Inr g)
  let ?w0 = "plog LInfo ''stopped monitoring, uploading to storage %q'' [Str (GoogleCloudProjectName (req t))] w"
  obtain u1 w1 where a1: "upload_artifact env t ''uploading database log [%q -> %q]'' (databaseLogPath ?w0) None ?w0 = (u1, w1)"
    by fastforce
  define w2 where "w2 = upload_proxy_log env t w1"
  obtain u3 w3 where a3: "upload_artifact env t ''uploading monitor results [%q -> %q]'' (monitorLogPath w2) u1 w2 = (u3, w3)"
    by fastforce
  obtain u4 w4 where a4: "upload_artifact env t ''uploading agent logs [%q -> %q]'' (agentLogPath w3) u3 w3 = (u4, w4)"
    by fastforce
  have r: "snd (uploadFunc env t w) = w4"
    using Inr a1 a3 a4 by (simp add: uploadFunc_def Let_def w2_def)
  from upload_artifact_extends [of env t _ "databaseLogPath ?w0" None ?w0] a1
  obtain e1 n1 where w1: "w1 = ?w0\<lparr>ticks := ticks ?w0 + n1, trace := trace ?w0 @ e1\<rparr>"
    and q1: "\<forall>a. EvLog LError ''uploadFunc error (%v)'' a \<notin> set e1"
    by (metis snd_conv)
  from upload_proxy_log_extends [of env t w1]
  obtain e2 n2 where w2: "w2 = w1\<lparr>ticks := ticks w1 + n2, trace := trace w1 @ e2\<rparr>"
    and q2: "\<forall>a. EvLog LError ''uploadFunc error (%v)'' a \<notin> set e2"
    unfolding w2_def by blast
  from upload_artifact_extends [of env t _ "monitorLogPath w2" u1 w2] a3
  obtain e3 n3 where w3: "w3 = w2\<lparr>ticks := ticks w2 + n3, trace := trace w2 @ e3\<rparr>"
    and q3: "\<forall>a. EvLog LError ''uploadFunc error (%v)'' a \<notin> set e3"
    by (metis snd_conv)
  from upload_artifact_extends [of env t _ "agentLogPath w3" u3 w3] a4
  obtain e4 n4 where w4: "w4 = w3\<lparr>ticks := ticks w3 + n4, trace := trace w3 @ e4\<rparr>"
    and q4: "\<forall>a. EvLog LError ''uploadFunc error (%v)'' a \<notin> set e4"
    by (metis snd_conv)
  show ?thesis unfolding r
    using q1 q2 q3 q4
    by (intro exI [of _ "EvLog LInfo ''stopped monitoring, uploading to storage %q''
          [Str (GoogleCloudProjectName (req t))] # e1 @ e2 @ e3 @ e4"] exI [of _ "n1 + n2 + n3 + n4"])
       (simp add: w4 w3 w2 w1 world_ops)
qed

lemma monitor_select_UploadSig:
  assumes "uploadSig w = us # q"
  shows "fst (monitor_select env t p UploadSig w) =
      (case NewGoogleCloudStorage env (GoogleCloudStorageKey (req t)) (GoogleCloudProjectName (req t)) of
         Inl err \<Rightarrow> Exited | Inr g \<Rightarrow> if us = Request_UploadLog then Looping else Exited)
    \<and> uploadSig (snd (monitor_select env t p UploadSig w)) = q
    \<and> (EvLog LError ''uploadFunc error (%v)'' [Err err]
          \<in> set (new_events w (snd (monitor_select env t p UploadSig w))))
       = (NewGoogleCloudStorage env (GoogleCloudStorageKey (req t)) (GoogleCloudProjectName (req t))
          = Inl err)"
proof -
  let ?w = "w\<lparr>uploadSig := q, trace := trace w @ [EvReceive us]\<rparr>"
  obtain r w' where u: "uploadFunc env t ?w = (r, w')" by fastforce
  from uploadFunc_result [of env t ?w] u
  have r: "r = (case NewGoogleCloudStorage env (GoogleCloudStorageKey (req t)) (GoogleCloudProjectName (req t)) of
        Inl err \<Rightarrow> Some err | Inr u \<Rightarrow> None)" by simp
  from uploadFunc_extends [of env t ?w] u
  obtain evs n where w': "w' = ?w\<lparr>ticks := ticks ?w + n, trace := trace ?w @ evs\<rparr>"
    and q: "\<forall>a. EvLog LError ''uploadFunc error (%v)'' a \<notin> set evs" by auto
  show ?thesis
    using assms q
    by (auto simp: monitor_select_def u r w' world_ops new_events_def split: sum.split)
qed

lemma monitor_select_Timer:
  "fst (monitor_select env t p Timer w) = Looping
   \<and> EvTimer 1 \<in> set (new_events w (snd (monitor_select env t p Timer w)))
   \<and> EvProcessList p \<in> set (new_events w (snd (monitor_select env t p Timer w)))"
  by (simp add: monitor_select_def rFunc_def process_List_def process_WriteToCSV_def openToAppend_def
      world_ops new_events_def split: sum.split option.split prod.split)

text \<open>
  Claim C10: the upload pass returns an error exactly when \<^verbatim>\<open>NewGoogleCloudStorage\<close> fails
  on the stored key and project, and that error; an uploader that fails at every attempt
  for every artifact still leaves the pass returning no error; and the loop that runs the
  pass after a signal logs a failed pass exactly when the client could not be made.
\<close>

theorem upload_pass_error_only_without_client:
  "fst (uploadFunc env t w) =
     (case NewGoogleCloudStorage env (GoogleCloudStorageKey (req t)) (GoogleCloudProjectName (req t)) of
        Inl err \<Rightarrow> Some err | Inr u \<Rightarrow> None)
   \<and> ((\<forall>n bucket src dst. UploadFile_res env n bucket src dst \<noteq> None)
        \<and> NewGoogleCloudStorage env (GoogleCloudStorageKey (req t)) (GoogleCloudProjectName (req t)) = Inr g
      \<longrightarrow> fst (uploadFunc env t w) = None)
   \<and> (uploadSig w1 = us # q
      \<longrightarrow> (EvLog LError ''uploadFunc error (%v)'' [Err err]
             \<in> set (new_events w1 (snd (monitor_select env t p UploadSig w1))))
          = (NewGoogleCloudStorage env (GoogleCloudStorageKey (req t)) (GoogleCloudProjectName (req t))
             = Inl err))"
  using monitor_select_UploadSig [of w1 us q env t p err] by (simp add: uploadFunc_result)

theorem upload_pass_error_only_without_client_witness:
  "(\<forall>n bucket src dst. UploadFile_res strict_down_env n bucket src dst \<noteq> None)
   \<and> NewGoogleCloudStorage strict_down_env (GoogleCloudStorageKey (req keyed_server))
        (GoogleCloudProjectName (req keyed_server))
       = Inr \<lparr>JSONKey = ''service account key'', Project = [], Config = ''config''\<rparr>
   \<and> fst (uploadFunc strict_down_env keyed_server initial_world) = None
   \<and> EvLog LError ''uploadFunc error (%v)'' [Err (ExtError ''unavailable'')]
       \<notin> set (new_events (initial_world\<lparr>uploadSig := [Request_Stop]\<rparr>)
           (snd (monitor_select strict_down_env keyed_server 4242 UploadSig
              (initial_world\<lparr>uploadSig := [Request_Stop]\<rparr>))))
   \<and> fst (uploadFunc strict_down_env running_server initial_world)
       = Some (ExtError ''unexpected end of JSON input'')
   \<and> EvLog LError ''uploadFunc error (%v)'' [Err (ExtError ''unexpected end of JSON input'')]
       \<in> set (new_events (initial_world\<lparr>uploadSig := [Request_Stop]\<rparr>)
           (snd (monitor_select strict_down_env running_server 4242 UploadSig
              (initial_world\<lparr>uploadSig := [Request_Stop]\<rparr>))))"
  using upload_pass_error_only_without_client [where env = strict_down_env and t = keyed_server
      and w = initial_world
      and g = "\<lparr>JSONKey = ''service account key'', Project = [], Config = ''config''\<rparr>"
      and ?w1.0 = "initial_world\<lparr>uploadSig := [Request_Stop]\<rparr>" and us = Request_Stop and q = "[]"
      and p = 4242 and err = "ExtError ''unavailable''"]
    upload_pass_error_only_without_client [where env = strict_down_env and t = running_server
      and w = initial_world
      and ?w1.0 = "initial_world\<lparr>uploadSig := [Request_Stop]\<rparr>" and us = Request_Stop and q = "[]"
      and p = 4242 and err = "ExtError ''unexpected end of JSON input''"]
  by (simp add: strict_down_env_def strict_env_def quiet_env_def keyed_server_def running_server_def
      start_req_def zero_Request_def NewGoogleCloudStorage_def)

subsection \<open>\<^verbatim>\<open>Stop\<close>\<close>

lemmas stop_defs = Transfer_Stop_def Let_def world_ops calls new_events_def stop_sequence_def

lemma Transfer_Stop_steps:
  "trace (snd (Transfer_Stop env t w)) = trace w @ new_events w (snd (Transfer_Stop env t w))
   \<and> prefix (filter stop_step (new_events w (snd (Transfer_Stop env t w)))) (stop_sequence t)
   \<and> (fst (Transfer_Stop env t w) = Ok p
        \<longrightarrow> filter stop_step (new_events w (snd (Transfer_Stop env t w))) = stop_sequence t)"
proof (cases "cmd t")
  case None
  then show ?thesis by (simp add: stop_defs)
next
  case c: (Some c)
  show ?thesis
  proof (cases "Kill_res env (ticks w) (pid t)")
    case (Some e)
    with c show ?thesis by (simp add: stop_defs)
  next
    case k: None
    show ?thesis
    proof (cases "proxyCmd t")
      case None
      with c k show ?thesis by (simp add: stop_defs split: option.split)
    next
      case c2: (Some c2)
      show ?thesis
      proof (cases "Kill_res env (Suc (ticks w)) (proxyPid t)")
        case (Some e)
        with c k c2 show ?thesis by (simp add: stop_defs split: option.split)
      next
        case None
        with c k c2 show ?thesis by (simp add: stop_defs split: option.split)
      qed
    qed
  qed
qed

lemma write_key_steps:
  "trace (snd (write_key cfg env t w)) = trace w @ new_events w (snd (write_key cfg env t w))
   \<and> filter stop_step (new_events w (snd (write_key cfg env t w))) = []
   \<and> started_cmds (new_events w (snd (write_key cfg env t w))) = []"
  by (simp add: write_key_def toFile_def world_ops new_events_def)

lemma Transfer_Stop_unfold:
  assumes "Operation r = Request_Stop"
  shows "Transfer cfg env t r w =
    (case write_key cfg env t w of
       (Some e, w1) \<Rightarrow> (Fail (ExtError e), t, w1)
     | (None, w1) \<Rightarrow>
         (case Transfer_Stop env t w1 of
            (Ok p, w2) \<Rightarrow> (Ok \<lparr>Success = True\<rparr>, t, plog LInfo ''transfer success'' [] w2)
          | (Fail e, w2) \<Rightarrow> (Fail e, t, w2)
          | (Panic m, w2) \<Rightarrow> (Panic m, t, w2)
          | (Blocked, w2) \<Rightarrow> (Blocked, t, w2)))"
  using assms
  by (simp add: Transfer_def Transfer_switch_def keep_request_def Let_def
      split: prod.split option.split outcome.split)

text \<open>
  Claim C1, amended: every \<^verbatim>\<open>Stop\<close> leaves the server's state as it is and performs an
  initial part of the sequence: the wait of 3 seconds, the signal to the primary process,
  the closing of its log file, the signal to the proxy when there is one, the closing of
  the proxy's log file, the trigger of the upload pass; a \<^verbatim>\<open>Stop\<close> that returns success
  performs the whole sequence. So the wait is first, the trigger is last, and every log
  file is closed before the trigger; and without a proxy the four phases of the claim
  follow each other as it states.
\<close>

theorem Stop_runs_its_sequence:
  assumes "Operation r = Request_Stop"
  shows "fst (snd (Transfer cfg env t r w)) = t
    \<and> prefix (filter stop_step (new_events w (snd (snd (Transfer cfg env t r w))))) (stop_sequence t)
    \<and> (fst (Transfer cfg env t r w) = Ok \<lparr>Success = True\<rparr>
        \<longrightarrow> filter stop_step (new_events w (snd (snd (Transfer cfg env t r w)))) = stop_sequence t)
    \<and> (proxyCmd t = None
        \<longrightarrow> in_claimed_order (new_events w (snd (snd (Transfer cfg env t r w)))))"
proof -
  obtain k w1 where wk: "write_key cfg env t w = (k, w1)" by fastforce
  obtain out w2 where ws: "Transfer_Stop env t w1 = (out, w2)" by fastforce
  from write_key_steps [of cfg env t w] wk
  have k1: "trace w1 = trace w @ new_events w w1" and k2: "filter stop_step (new_events w w1) = []"
    by simp_all
  from Transfer_Stop_steps [of env t w1] ws
  have s1: "trace w2 = trace w1 @ new_events w1 w2"
    and s2: "prefix (filter stop_step (new_events w1 w2)) (stop_sequence t)"
    and s3: "out = Ok p \<Longrightarrow> filter stop_step (new_events w1 w2) = stop_sequence t" for p
    using Transfer_Stop_steps [of env t w1] ws by simp_all
  have n2: "new_events w w2 = new_events w w1 @ new_events w1 w2"
    by (rule new_events_append [OF k1 s1])
  have n3: "new_events w (plog LInfo ''transfer success'' [] w2)
      = new_events w w1 @ new_events w1 w2 @ [EvLog LInfo ''transfer success'' []]"
  proof -
    have "trace w2 = trace w @ (new_events w w1 @ new_events w1 w2)"
      by (metis k1 s1 append.assoc)
    from new_events_append [OF this, of "plog LInfo ''transfer success'' [] w2"
        "[EvLog LInfo ''transfer success'' []]"]
    show ?thesis by (simp add: plog_def emit_def)
  qed
  have T: "Transfer cfg env t r w =
    (case k of Some e \<Rightarrow> (Fail (ExtError e), t, w1)
     | None \<Rightarrow> (case out of
            Ok p \<Rightarrow> (Ok \<lparr>Success = True\<rparr>, t, plog LInfo ''transfer success'' [] w2)
          | Fail e \<Rightarrow> (Fail e, t, w2)
          | Panic m \<Rightarrow> (Panic m, t, w2)
          | Blocked \<Rightarrow> (Blocked, t, w2)))"
    by (simp add: Transfer_Stop_unfold [OF assms] wk ws split: option.split)
  have noproxy: "in_claimed_order evs"
    if "proxyCmd t = None" "prefix (filter stop_step evs) (stop_sequence t)" for evs
  proof -
    from that(2) obtain zs where "stop_sequence t = filter stop_step evs @ zs"
      by (auto simp: prefix_def)
    moreover have "sorted (map claimed_phase (stop_sequence t))"
      using that(1) by (simp add: stop_sequence_def split: option.split)
    ultimately have "sorted (map claimed_phase (filter stop_step evs))"
      by (simp add: sorted_append)
    then show ?thesis by (simp add: in_claimed_order_def)
  qed
  show ?thesis
  proof (cases k)
    case (Some e)
    then show ?thesis using k2 noproxy [of "new_events w w1"] by (simp add: T)
  next
    case None
    have p2: "prefix (filter stop_step (new_events w w2)) (stop_sequence t)"
      using s2 k2 by (simp add: n2)
    have p3: "filter stop_step (new_events w (plog LInfo ''transfer success'' [] w2))
        = filter stop_step (new_events w w2)"
      by (simp add: n3 n2)
    have p4: "in_claimed_order (new_events w (plog LInfo ''transfer success'' [] w2))
        = in_claimed_order (new_events w w2)"
      by (simp add: in_claimed_order_def p3)
    show ?thesis
    proof (cases out)
      case (Ok p)
      with None show ?thesis
        using p2 p3 p4 s3 [of p] k2 noproxy [of "new_events w w2"] by (simp add: T n2)
    qed (use None p2 noproxy [of "new_events w w2"] in \<open>simp_all add: T\<close>)
  qed
qed

subsection \<open>The run of \<open>start_req\<close>\<close>

lemma split3:
  "strings_Split ''10.0.0.1___10.0.0.2___10.0.0.3'' ''___'' = [''10.0.0.1'', ''10.0.0.2'', ''10.0.0.3'']"
  by (simp add: strings_Split_def strings_HasPrefix_def)

lemma upt3: "[0..<3] = [0, 1, 2]"
  by (simp add: upt_rec)

lemmas etcd_defs = etcd_names_def etcd_clientURLs_def etcd_peerURLs_def etcd_members_def
  etcd_clusterStr_def etcd_flags_def etcdToken_def proxy_flags_def exec_Command_def

lemmas start_eval = Transfer_def start_req_def zero_Request_def split3 Start_paths_def under_WorkingDirectory_def
  keep_request_def write_key_def NewTransporterServer_def Transfer_switch_def Start_etcd_def Start_proxy_def
  Let_def world_ops calls launch_alt etcd_defs test_cfg_def quiet_env_def initial_world_def serving_world_def
  CommandFunc_paths_def path_eval showInt_def showNat.simps digit_char_def upt3

lemma start_run:
  "(case Transfer test_cfg quiet_env NewTransporterServer start_req serving_world of
      (out, t, w) \<Rightarrow>
        out = Ok \<lparr>Success = True\<rparr> \<and> t = running_server \<and> uploadSig w = [] \<and> ticks w = 7
        \<and> databaseLogPath w = ''/home/agent/database.log''
        \<and> monitorLogPath w = ''/home/agent/monitor.csv''
        \<and> agentLogPath w = ''/home/agent/agent.log''
        \<and> map Path (started_cmds (new_events serving_world w)) = [''/go/bin/etcd'', ''/go/bin/zetcd''])"
  by (simp add: start_eval running_server_def new_events_def)

lemma running_facts:
  "fst (Transfer test_cfg quiet_env NewTransporterServer start_req serving_world) = Ok \<lparr>Success = True\<rparr>"
  "fst (snd (Transfer test_cfg quiet_env NewTransporterServer start_req serving_world)) = running_server"
  "uploadSig running_world = []"
  "ticks running_world = 7"
  "databaseLogPath running_world = ''/home/agent/database.log''"
  "monitorLogPath running_world = ''/home/agent/monitor.csv''"
  "agentLogPath running_world = ''/home/agent/agent.log''"
  "map Path (started_cmds (new_events serving_world running_world)) = [''/go/bin/etcd'', ''/go/bin/zetcd'']"
  using start_run by (simp_all add: running_world_def split: prod.splits)

lemmas stop_eval = Transfer_def Transfer_switch_def Transfer_Stop_def keep_request_def write_key_def
  Let_def world_ops calls new_events_def stop_req_def zero_Request_def running_facts

text \<open>
  Claim C1, as stated, fails: with a proxy, the log file of the primary process is closed
  before the proxy is signalled, so the closing of the files does not come after all the
  signalling.
\<close>

theorem Stop_closes_before_proxy_signal:
  "fst (Transfer test_cfg quiet_env running_server stop_req running_world) = Ok \<lparr>Success = True\<rparr>
   \<and> \<not> in_claimed_order
        (new_events running_world (snd (snd (Transfer test_cfg quiet_env running_server stop_req running_world))))"
  by (simp add: stop_eval running_server_def start_req_def quiet_env_def in_claimed_order_def)

theorem Stop_runs_its_sequence_witness:
  "Operation stop_req = Request_Stop
   \<and> fst (Transfer test_cfg quiet_env running_server stop_req running_world) = Ok \<lparr>Success = True\<rparr>
   \<and> filter stop_step
        (new_events running_world (snd (snd (Transfer test_cfg quiet_env running_server stop_req running_world))))
       = [EvSleep 3, EvKill 4242, EvClose (File ''/home/agent/database.log'' 3),
          EvKill 4242, EvClose (File ''/home/agent/database.log-zetcd'' 5), EvSend Request_Stop]
   \<and> proxyCmd plain_server = None
   \<and> in_claimed_order
        (new_events running_world (snd (snd (Transfer test_cfg quiet_env plain_server stop_req running_world))))"
proof -
  have op: "Operation stop_req = Request_Stop" by (simp add: stop_req_def)
  have ok: "fst (Transfer test_cfg quiet_env running_server stop_req running_world) = Ok \<lparr>Success = True\<rparr>"
    by (simp add: stop_eval running_server_def start_req_def quiet_env_def)
  have np: "proxyCmd plain_server = None" by (simp add: plain_server_def)
  from Stop_runs_its_sequence [OF op, of test_cfg quiet_env running_server running_world] ok
    Stop_runs_its_sequence [OF op, of test_cfg quiet_env plain_server running_world] np op
  show ?thesis by (simp add: stop_sequence_def running_server_def)
qed

subsection \<open>\<^verbatim>\<open>UploadLog\<close>\<close>

lemma Transfer_UploadLog_unfold:
  assumes "Operation r = Request_UploadLog"
  shows "Transfer cfg env t r w =
    (case write_key cfg env (keep_request t r) w of
       (Some e, w1) \<Rightarrow> (Fail (ExtError e), keep_request t r, w1)
     | (None, w1) \<Rightarrow>
         (case Transfer_UploadLog (keep_request t r) w1 of
            (Ok p, w2) \<Rightarrow> (Ok \<lparr>Success = True\<rparr>, keep_request t r, plog LInfo ''transfer success'' [] w2)
          | (Fail e, w2) \<Rightarrow> (Fail e, keep_request t r, w2)
          | (Panic m, w2) \<Rightarrow> (Panic m, keep_request t r, w2)
          | (Blocked, w2) \<Rightarrow> (Blocked, keep_request t r, w2)))"
  using assms
  by (simp add: Transfer_def Transfer_switch_def Let_def
      split: prod.split option.split outcome.split)

lemma Transfer_UploadLog_state:
  "Operation r = Request_UploadLog \<Longrightarrow> fst (snd (Transfer cfg env t r w)) = keep_request t r"
  by (simp add: Transfer_UploadLog_unfold split: prod.split option.split outcome.split)

lemmas uploadlog_eval = Transfer_UploadLog_unfold Transfer_UploadLog_alt write_key_def keep_request_def
  uploadlog_req_def zero_Request_def running_server_def start_req_def running_facts

text \<open>
  Claim C2 holds for \<^verbatim>\<open>Stop\<close> and fails for \<^verbatim>\<open>UploadLog\<close>: the case of \<^verbatim>\<open>Stop\<close> returns the
  error \<^verbatim>\<open>nil command\<close> when no command is tracked, and the case of \<^verbatim>\<open>UploadLog\<close> has no
  such test. With no process tracked, no key stored and the channel empty, \<^verbatim>\<open>UploadLog\<close>
  returns success and leaves its signal in the channel, where no loop waits for it.
\<close>

theorem UploadLog_without_process_succeeds:
  assumes "Operation r = Request_UploadLog" and "cmd t = None"
    and "GoogleCloudStorageKey (req t) = []" and "uploadSig w = []"
  shows "fst (Transfer cfg env t r w) = Ok \<lparr>Success = True\<rparr>
    \<and> uploadSig (snd (snd (Transfer cfg env t r w))) = [Request_UploadLog]"
  using assms
  by (simp add: Transfer_UploadLog_unfold Transfer_UploadLog_alt write_key_def keep_request_def
      world_ops)

theorem UploadLog_without_process_succeeds_witness:
  "Operation uploadlog_req = Request_UploadLog \<and> cmd NewTransporterServer = None
   \<and> GoogleCloudStorageKey (req NewTransporterServer) = [] \<and> uploadSig serving_world = []
   \<and> fst (Transfer test_cfg quiet_env NewTransporterServer uploadlog_req serving_world)
       = Ok \<lparr>Success = True\<rparr>
   \<and> fst (Transfer test_cfg quiet_env NewTransporterServer stop_req serving_world)
       = Fail (Errorf ''nil command'' [])"
proof -
  have h: "Operation uploadlog_req = Request_UploadLog" "cmd NewTransporterServer = None"
    "GoogleCloudStorageKey (req NewTransporterServer) = []" "uploadSig serving_world = []"
    by (simp_all add: uploadlog_req_def NewTransporterServer_def zero_Request_def serving_world_def
        CommandFunc_paths_def initial_world_def)
  have "fst (Transfer test_cfg quiet_env NewTransporterServer stop_req serving_world)
       = Fail (Errorf ''nil command'' [])"
    by (simp add: Transfer_def Transfer_switch_def Transfer_Stop_def keep_request_def write_key_def
        Let_def world_ops stop_req_def zero_Request_def NewTransporterServer_def)
  with h UploadLog_without_process_succeeds [OF h, of test_cfg quiet_env] show ?thesis by simp
qed

text \<open>
  Claim C3, as stated, fails: when the signal to the primary process fails, \<^verbatim>\<open>Stop\<close> returns
  the error at once and the open log file is not closed.
\<close>

theorem Stop_signal_failure_leaves_log_open:
  "logfile running_server = Some (File ''/home/agent/database.log'' 3)
   \<and> fst (Transfer test_cfg gone_env running_server stop_req running_world)
       = Fail (ExtError ''no such process'')
   \<and> EvClose (File ''/home/agent/database.log'' 3)
       \<notin> set (new_events running_world
                (snd (snd (Transfer test_cfg gone_env running_server stop_req running_world))))"
  by (simp add: stop_eval running_server_def start_req_def gone_env_def quiet_env_def)

text \<open>
  Claim C3, amended: during \<^verbatim>\<open>Stop\<close>, if the signal to the tracked primary process fails,
  the failure is returned to the caller and nothing else is done: of the steps of a
  \<^verbatim>\<open>Stop\<close> only the wait and the signal are performed, so no log file is closed, the proxy
  is not signalled and no upload pass is triggered; the server's state is as before.
\<close>

theorem Stop_signal_failure_returns_at_once:
  assumes "Operation r = Request_Stop" and "cmd t = Some c"
    and "fst (write_key cfg env t w) = None"
    and "Kill_res env (ticks (snd (write_key cfg env t w))) (pid t) = Some e"
  shows "fst (Transfer cfg env t r w) = Fail (ExtError e)
    \<and> fst (snd (Transfer cfg env t r w)) = t
    \<and> filter stop_step (new_events w (snd (snd (Transfer cfg env t r w)))) = [EvSleep 3, EvKill (pid t)]
    \<and> uploadSig (snd (snd (Transfer cfg env t r w))) = uploadSig w"
proof -
  obtain w1 where wk: "write_key cfg env t w = (None, w1)"
    using assms(3) by (cases "write_key cfg env t w") auto
  have w1: "w1 = w \<or> (\<exists>txt p. w1 = tick (emit (EvToFile txt p) w))"
    using wk by (auto simp: write_key_def toFile_def split: if_splits)
  have k: "Kill_res env (ticks w1) (pid t) = Some e" using assms(4) wk by simp
  have s: "Transfer_Stop env t w1 =
     (Fail (ExtError e),
      w1\<lparr>ticks := Suc (ticks w1),
          trace := trace w1 @ [EvSleep 3,
            EvLog LInfo ''stopping binary %q for %q [PID: %d]''
              [Str (Path c), Str (Database_String (Database (req t))), Num (pid t)],
            EvKill (pid t)]\<rparr>)"
    using assms(2) k by (simp add: Transfer_Stop_def Let_def world_ops calls)
  from w1 show ?thesis
    by (auto simp: Transfer_Stop_unfold [OF assms(1)] wk s new_events_def world_ops)
qed

theorem Stop_signal_failure_returns_at_once_witness:
  "Operation stop_req = Request_Stop \<and> cmd running_server \<noteq> None
   \<and> fst (Transfer test_cfg gone_env running_server stop_req running_world)
       = Fail (ExtError ''no such process'')
   \<and> filter stop_step (new_events running_world
        (snd (snd (Transfer test_cfg gone_env running_server stop_req running_world))))
       = [EvSleep 3, EvKill 4242]"
proof -
  have h: "Operation stop_req = Request_Stop"
    "cmd running_server = Some (the (cmd running_server))"
    "fst (write_key test_cfg gone_env running_server running_world) = None"
    "Kill_res gone_env (ticks (snd (write_key test_cfg gone_env running_server running_world)))
       (pid running_server) = Some ''no such process''"
    by (simp_all add: stop_req_def running_server_def start_req_def zero_Request_def write_key_def
        gone_env_def)
  from Stop_signal_failure_returns_at_once [OF h] h(1) show ?thesis
    by (simp add: running_server_def)
qed

text \<open>
  Claim C5, as stated, fails: of the destination fields of the new command (the project,
  the bucket, the key, the sub-directory and the test name) lines 206-209 merge three.
  An \<^verbatim>\<open>UploadLog\<close> that carries another key and another test name leaves the stored key and
  the stored test name as the \<^verbatim>\<open>Start\<close> left them, while the project, the bucket and the
  sub-directory are taken from it.
\<close>

theorem UploadLog_leaves_key_and_test_name:
  "Operation rekey_req = Request_UploadLog
   \<and> GoogleCloudStorageKey rekey_req = ''another key'' \<and> TestName rekey_req = ''second''
   \<and> GoogleCloudStorageKey
        (req (fst (snd (Transfer test_cfg quiet_env running_server rekey_req running_world)))) = []
   \<and> TestName
        (req (fst (snd (Transfer test_cfg quiet_env running_server rekey_req running_world)))) = ''bench''
   \<and> GoogleCloudProjectName
        (req (fst (snd (Transfer test_cfg quiet_env running_server rekey_req running_world)))) = ''project''
   \<and> GoogleCloudStorageBucketName
        (req (fst (snd (Transfer test_cfg quiet_env running_server rekey_req running_world)))) = ''results''
   \<and> GoogleCloudStorageSubDirectory
        (req (fst (snd (Transfer test_cfg quiet_env running_server rekey_req running_world)))) = ''logs''"
  by (simp add: Transfer_UploadLog_state keep_request_def rekey_req_def uploadlog_req_def
      running_server_def start_req_def zero_Request_def)

text \<open>
  Claim C5, amended: after an \<^verbatim>\<open>UploadLog\<close>, whatever it returns, the server's state is the
  state before with the project name, the bucket name and the sub-directory of the stored
  request replaced by those of the new request. Nothing else changes: the stored key and
  the stored test name are kept, whatever the new request carries, and the process ids,
  the commands and the log files are the same; and the same request once more leaves
  that state as it is.
\<close>

theorem UploadLog_merges_three_fields:
  assumes "Operation r = Request_UploadLog"
  shows "fst (snd (Transfer cfg env t r w)) =
           t\<lparr>req := (req t)\<lparr>GoogleCloudProjectName := GoogleCloudProjectName r,
                            GoogleCloudStorageBucketName := GoogleCloudStorageBucketName r,
                            GoogleCloudStorageSubDirectory := GoogleCloudStorageSubDirectory r\<rparr>\<rparr>
    \<and> GoogleCloudStorageKey (req (fst (snd (Transfer cfg env t r w)))) = GoogleCloudStorageKey (req t)
    \<and> TestName (req (fst (snd (Transfer cfg env t r w)))) = TestName (req t)
    \<and> pid (fst (snd (Transfer cfg env t r w))) = pid t
    \<and> cmd (fst (snd (Transfer cfg env t r w))) = cmd t
    \<and> logfile (fst (snd (Transfer cfg env t r w))) = logfile t
    \<and> proxyPid (fst (snd (Transfer cfg env t r w))) = proxyPid t
    \<and> proxyCmd (fst (snd (Transfer cfg env t r w))) = proxyCmd t
    \<and> proxyLogfile (fst (snd (Transfer cfg env t r w))) = proxyLogfile t
    \<and> fst (snd (Transfer cfg env' (fst (snd (Transfer cfg env t r w))) r w'))
        = fst (snd (Transfer cfg env t r w))"
  using assms by (simp add: Transfer_UploadLog_state keep_request_def)

theorem UploadLog_merges_three_fields_witness:
  "Operation rekey_req = Request_UploadLog
   \<and> fst (snd (Transfer test_cfg strict_env keyed_server rekey_req running_world))
       = keyed_server\<lparr>req := (req keyed_server)\<lparr>GoogleCloudProjectName := ''project'',
            GoogleCloudStorageBucketName := ''results'', GoogleCloudStorageSubDirectory := ''logs''\<rparr>\<rparr>
   \<and> GoogleCloudStorageKey
        (req (fst (snd (Transfer test_cfg strict_env keyed_server rekey_req running_world))))
       = ''service account key''
   \<and> TestName (req (fst (snd (Transfer test_cfg strict_env keyed_server rekey_req running_world))))
       = ''bench''
   \<and> pid (fst (snd (Transfer test_cfg strict_env keyed_server rekey_req running_world))) = 4242"
proof -
  have op: "Operation rekey_req = Request_UploadLog" by (simp add: rekey_req_def uploadlog_req_def)
  from UploadLog_merges_three_fields [OF op, of test_cfg strict_env keyed_server running_world]
  show ?thesis
    by (simp add: op rekey_req_def uploadlog_req_def keyed_server_def running_server_def
        start_req_def zero_Request_def)
qed

text \<open>
  Claim C6, as stated, fails: when the client of the storage cannot be made from the
  stored key, the pass that \<^verbatim>\<open>UploadLog\<close> triggers fails and the loop returns.
\<close>

theorem UploadLog_pass_failure_ends_loop:
  "fst (Transfer test_cfg bad_key_env running_server uploadlog_req running_world) = Ok \<lparr>Success = True\<rparr>
   \<and> fst (monitor_select bad_key_env
        (fst (snd (Transfer test_cfg bad_key_env running_server uploadlog_req running_world))) 4242
        UploadSig
        (snd (snd (Transfer test_cfg bad_key_env running_server uploadlog_req running_world))))
       = Exited"
  by (simp add: uploadlog_eval monitor_select_def uploadFunc_def NewGoogleCloudStorage_def
      bad_key_env_def quiet_env_def world_ops Let_def)

text \<open>
  Claim C6, amended: an \<^verbatim>\<open>UploadLog\<close> sends no signal to any process and keeps the tracked
  process id; when it returns success it has put one \<^verbatim>\<open>UploadLog\<close> value on the channel. The
  loop that receives this value runs the pass and goes on when the client of the storage
  could be made, and returns when it could not; and every turn of the loop on its timer
  of one second takes a sample and goes on.
\<close>

theorem UploadLog_keeps_process_and_loop:
  assumes "Operation r = Request_UploadLog"
  shows "(\<forall>p. EvKill p \<notin> set (new_events w (snd (snd (Transfer cfg env t r w)))))
    \<and> pid (fst (snd (Transfer cfg env t r w))) = pid t
    \<and> (fst (Transfer cfg env t r w) = Ok \<lparr>Success = True\<rparr>
         \<longrightarrow> uploadSig (snd (snd (Transfer cfg env t r w))) = uploadSig w @ [Request_UploadLog])
    \<and> (uploadSig w1 = Request_UploadLog # q
         \<longrightarrow> fst (monitor_select env1 t1 p UploadSig w1) =
               (case NewGoogleCloudStorage env1 (GoogleCloudStorageKey (req t1))
                       (GoogleCloudProjectName (req t1)) of
                  Inl err \<Rightarrow> Exited | Inr g \<Rightarrow> Looping)
             \<and> uploadSig (snd (monitor_select env1 t1 p UploadSig w1)) = q)
    \<and> fst (monitor_select env1 t1 p Timer w2) = Looping
    \<and> EvTimer 1 \<in> set (new_events w2 (snd (monitor_select env1 t1 p Timer w2)))
    \<and> EvProcessList p \<in> set (new_events w2 (snd (monitor_select env1 t1 p Timer w2)))"
proof -
  have a: "(\<forall>p. EvKill p \<notin> set (new_events w (snd (snd (Transfer cfg env t r w)))))
    \<and> pid (fst (snd (Transfer cfg env t r w))) = pid t
    \<and> (fst (Transfer cfg env t r w) = Ok \<lparr>Success = True\<rparr>
         \<longrightarrow> uploadSig (snd (snd (Transfer cfg env t r w))) = uploadSig w @ [Request_UploadLog])"
    using assms
    by (simp add: Transfer_UploadLog_unfold Transfer_UploadLog_alt write_key_def toFile_def
        keep_request_def world_ops new_events_def split: option.split)
  have b: "uploadSig w1 = Request_UploadLog # q
         \<longrightarrow> fst (monitor_select env1 t1 p UploadSig w1) =
               (case NewGoogleCloudStorage env1 (GoogleCloudStorageKey (req t1))
                       (GoogleCloudProjectName (req t1)) of
                  Inl err \<Rightarrow> Exited | Inr g \<Rightarrow> Looping)
             \<and> uploadSig (snd (monitor_select env1 t1 p UploadSig w1)) = q"
    using monitor_select_UploadSig [of w1 Request_UploadLog q env1 t1 p] by simp
  show ?thesis
    using a b monitor_select_Timer [of env1 t1 p w2] by blast
qed

theorem UploadLog_keeps_process_and_loop_witness:
  "Operation uploadlog_req = Request_UploadLog
   \<and> fst (Transfer test_cfg strict_env keyed_server uploadlog_req running_world) = Ok \<lparr>Success = True\<rparr>
   \<and> uploadSig (snd (snd (Transfer test_cfg strict_env keyed_server uploadlog_req running_world)))
       = [Request_UploadLog]
   \<and> NewGoogleCloudStorage strict_env ''service account key'' ''project''
       = Inr \<lparr>JSONKey = ''service account key'', Project = ''project'', Config = ''config''\<rparr>
   \<and> fst (monitor_select strict_env
        (fst (snd (Transfer test_cfg strict_env keyed_server uploadlog_req running_world))) 4242
        UploadSig
        (snd (snd (Transfer test_cfg strict_env keyed_server uploadlog_req running_world))))
       = Looping
   \<and> fst (monitor_select strict_env
        (fst (snd (Transfer test_cfg strict_env running_server uploadlog_req running_world))) 4242
        UploadSig
        (snd (snd (Transfer test_cfg strict_env running_server uploadlog_req running_world))))
       = Exited"
proof -
  let ?T = "Transfer test_cfg strict_env keyed_server uploadlog_req running_world"
  let ?U = "Transfer test_cfg strict_env running_server uploadlog_req running_world"
  have op: "Operation uploadlog_req = Request_UploadLog" by (simp add: uploadlog_req_def)
  have ok: "fst ?T = Ok \<lparr>Success = True\<rparr>"
    by (simp add: uploadlog_eval keyed_server_def toFile_def world_ops strict_env_def quiet_env_def)
  have sig: "uploadSig (snd (snd ?U)) = [Request_UploadLog]"
    by (simp add: uploadlog_eval world_ops)
  have g: "NewGoogleCloudStorage strict_env ''service account key'' ''project''
       = Inr \<lparr>JSONKey = ''service account key'', Project = ''project'', Config = ''config''\<rparr>"
    by (simp add: NewGoogleCloudStorage_def strict_env_def quiet_env_def)
  have key: "NewGoogleCloudStorage strict_env (GoogleCloudStorageKey (req (fst (snd ?T))))
      (GoogleCloudProjectName (req (fst (snd ?T))))
        = Inr \<lparr>JSONKey = ''service account key'', Project = ''project'', Config = ''config''\<rparr>"
    unfolding Transfer_UploadLog_state [OF op]
    by (simp add: keep_request_def keyed_server_def uploadlog_req_def g)
  have nokey: "NewGoogleCloudStorage strict_env (GoogleCloudStorageKey (req (fst (snd ?U))))
      (GoogleCloudProjectName (req (fst (snd ?U))))
        = Inl (ExtError ''unexpected end of JSON input'')"
    unfolding Transfer_UploadLog_state [OF op]
    by (simp add: keep_request_def running_server_def start_req_def
        zero_Request_def uploadlog_req_def NewGoogleCloudStorage_def strict_env_def quiet_env_def)
  from UploadLog_keeps_process_and_loop [OF op, of running_world test_cfg strict_env keyed_server
      "snd (snd ?T)" "[]" strict_env "fst (snd ?T)" 4242]
    UploadLog_keeps_process_and_loop [OF op, of running_world test_cfg strict_env running_server
      "snd (snd ?U)" "[]" strict_env "fst (snd ?U)" 4242]
    ok op key nokey sig g
  show ?thesis by (simp add: running_facts)
qed

subsection \<open>\<^verbatim>\<open>Start\<close> of etcd\<close>

lemma started_cmds_append: "started_cmds (a @ b) = started_cmds a @ started_cmds b"
  by (induction a rule: started_cmds.induct) simp_all

lemma Start_paths_cmds:
  "trace (Start_paths cfg w) = trace w @ new_events w (Start_paths cfg w)
   \<and> started_cmds (new_events w (Start_paths cfg w)) = []"
  by (simp add: Start_paths_def Let_def world_ops new_events_def)

text \<open>
  Whatever the outside world answers, the first command that \<open>Start_etcd\<close> starts, if it
  starts one, is the etcd binary with the flags of lines 253-266.
\<close>

lemma Start_etcd_cmds:
  assumes "Database (req t) = Request_etcdv2 \<or> Database (req t) = Request_etcdv3
     \<or> Database (req t) = Request_zetcd \<or> Database (req t) = Request_cetcd"
  shows "(case Start_etcd cfg env peers t w of (out, t', w') \<Rightarrow>
      trace w' = trace w @ new_events w w'
      \<and> (case started_cmds (new_events w w') of
            [] \<Rightarrow> (\<forall>p. out \<noteq> Ok p)
          | c # cs \<Rightarrow> Path c = etcdBinaryPath cfg
              \<and> etcd_flags peers (ServerIndex (req t)) (etcdDataDir w) = Some (tl (Args c))
              \<and> (\<forall>p. out = Ok p \<longrightarrow> cmd t' = Some c)))"
  using assms
  apply (elim disjE)
  apply (simp_all add: Start_etcd_def Start_proxy_def Let_def exist_def os_RemoveAll_def openToAppend_def
      launch_alt world_ops new_events_def exec_Command_def
      split: sum.split option.split prod.split)
  done

lemma Transfer_Start_etcd_unfold:
  assumes "Operation r = Request_Start"
    and "Database r = Request_etcdv2 \<or> Database r = Request_etcdv3
     \<or> Database r = Request_zetcd \<or> Database r = Request_cetcd"
  shows "Transfer cfg env t0 r w0 =
    (case write_key cfg env (t0\<lparr>req := r\<rparr>) (Start_paths cfg w0) of
       (Some e, w1) \<Rightarrow> (Fail (ExtError e), t0\<lparr>req := r\<rparr>, w1)
     | (None, w1) \<Rightarrow>
         (case Start_etcd cfg env (strings_Split (PeerIPString r) ''___'') (t0\<lparr>req := r\<rparr>) w1 of
            (Ok p, t', w2) \<Rightarrow>
              (Ok \<lparr>Success = True\<rparr>, t', plog LInfo ''transfer success'' [] (emit (EvGoMonitor p) w2))
          | (Fail e, t', w2) \<Rightarrow> (Fail e, t', w2)
          | (Panic m, t', w2) \<Rightarrow> (Panic m, t', w2)
          | (Blocked, t', w2) \<Rightarrow> (Blocked, t', w2)))"
  using assms
  by (elim disjE)
     (simp_all add: Transfer_def Transfer_switch_def keep_request_def Let_def
      split: prod.split option.split outcome.split)

lemma etcd_flags_form:
  assumes "etcd_flags peers i dir = Some fl"
  shows "length fl = 18
    \<and> drop 14 fl = [''--initial-cluster'',
         strings_Join (map (\<lambda>i. ''etcd-'' @ showNat (i + 1) @ ''=http://'' @ peers ! i @ '':2380'')
                          [0..<length peers]) '','',
         ''--initial-cluster-state'', ''new'']"
proof -
  have "etcd_members peers
      = map (\<lambda>i. ''etcd-'' @ showNat (i + 1) @ ''=http://'' @ peers ! i @ '':2380'') [0..<length peers]"
    by (simp add: etcd_members_def etcd_names_def etcd_peerURLs_def showInt_def nat_add_distrib)
  with assms show ?thesis
    by (auto simp: etcd_flags_def etcd_clusterStr_def split: if_splits)
qed

text \<open>
  Claim C8: in a \<^verbatim>\<open>Start\<close> of etcd, with or without a proxy, the first command started is the
  etcd binary, and its last four arguments are \<^verbatim>\<open>--initial-cluster\<close>, the pairs
  \<^verbatim>\<open>etcd-{i+1}=http://{peer i}:2380\<close> of all the peers of the request in their order, joined
  with commas, \<^verbatim>\<open>--initial-cluster-state\<close> and \<^verbatim>\<open>new\<close>, whatever the other fields of the
  request are; a \<^verbatim>\<open>Start\<close> that returns success has started this command and tracks it.
\<close>

theorem etcd_initial_cluster:
  assumes "Operation r = Request_Start"
    and "Database r = Request_etcdv2 \<or> Database r = Request_etcdv3
     \<or> Database r = Request_zetcd \<or> Database r = Request_cetcd"
  shows "(case started_cmds (new_events w0 (snd (snd (Transfer cfg env t0 r w0)))) of
       [] \<Rightarrow> fst (Transfer cfg env t0 r w0) \<noteq> Ok \<lparr>Success = True\<rparr>
     | c # cs \<Rightarrow>
         Path c = etcdBinaryPath cfg
         \<and> length (Args c) = 19
         \<and> drop 15 (Args c) =
             [''--initial-cluster'',
              strings_Join
                (map (\<lambda>i. ''etcd-'' @ showNat (i + 1) @ ''=http://''
                           @ strings_Split (PeerIPString r) ''___'' ! i @ '':2380'')
                   [0..<length (strings_Split (PeerIPString r) ''___'')]) '','',
              ''--initial-cluster-state'', ''new'']
         \<and> (fst (Transfer cfg env t0 r w0) = Ok \<lparr>Success = True\<rparr>
              \<longrightarrow> cmd (fst (snd (Transfer cfg env t0 r w0))) = Some c))"
proof -
  let ?t = "t0\<lparr>req := r\<rparr>"
  let ?peers = "strings_Split (PeerIPString r) ''___''"
  let ?wp = "Start_paths cfg w0"
  obtain k w1 where wk: "write_key cfg env ?t ?wp = (k, w1)" by fastforce
  obtain out t' w2 where se: "Start_etcd cfg env ?peers ?t w1 = (out, t', w2)"
    by (metis prod_cases3)
  have db: "Database (req ?t) = Request_etcdv2 \<or> Database (req ?t) = Request_etcdv3
     \<or> Database (req ?t) = Request_zetcd \<or> Database (req ?t) = Request_cetcd"
    using assms(2) by simp
  from Start_paths_cmds [of cfg w0]
  have p1: "trace ?wp = trace w0 @ new_events w0 ?wp"
    and p2: "started_cmds (new_events w0 ?wp) = []" by simp_all
  from write_key_steps [of cfg env ?t ?wp] wk
  have k1: "trace w1 = trace ?wp @ new_events ?wp w1"
    and k2: "started_cmds (new_events ?wp w1) = []" by simp_all
  from Start_etcd_cmds [OF db, where cfg = cfg and env = env and peers = ?peers and w = w1] se
  have s1: "trace w2 = trace w1 @ new_events w1 w2"
    and s2: "(case started_cmds (new_events w1 w2) of
            [] \<Rightarrow> (\<forall>p. out \<noteq> Ok p)
          | c # cs \<Rightarrow> Path c = etcdBinaryPath cfg
              \<and> etcd_flags ?peers (ServerIndex r) (etcdDataDir w1) = Some (tl (Args c))
              \<and> (\<forall>p. out = Ok p \<longrightarrow> cmd t' = Some c))"
    by (simp_all cong: list.case_cong)
  have t1: "trace w1 = trace w0 @ (new_events w0 ?wp @ new_events ?wp w1)"
    by (metis p1 k1 append.assoc)
  have n1: "new_events w0 w1 = new_events w0 ?wp @ new_events ?wp w1"
    by (rule new_events_append [OF p1 k1])
  have n2: "new_events w0 w2 = (new_events w0 ?wp @ new_events ?wp w1) @ new_events w1 w2"
    by (rule new_events_append [OF t1 s1])
  have c1: "started_cmds (new_events w0 w1) = []"
    by (simp add: n1 started_cmds_append p2 k2)
  have c2: "started_cmds (new_events w0 w2) = started_cmds (new_events w1 w2)"
    by (simp add: n2 started_cmds_append p2 k2)
  have c3: "started_cmds (new_events w0 (plog LInfo ''transfer success'' [] (emit (EvGoMonitor p) w2)))
      = started_cmds (new_events w1 w2)" for p
  proof -
    have "trace w2 = trace w0 @ ((new_events w0 ?wp @ new_events ?wp w1) @ new_events w1 w2)"
      by (metis t1 s1 append.assoc)
    from new_events_append [OF this, of "plog LInfo ''transfer success'' [] (emit (EvGoMonitor p) w2)"
        "[EvGoMonitor p, EvLog LInfo ''transfer success'' []]"]
    show ?thesis by (simp add: plog_def emit_def started_cmds_append p2 k2)
  qed
  have T: "Transfer cfg env t0 r w0 =
    (case k of Some e \<Rightarrow> (Fail (ExtError e), ?t, w1)
     | None \<Rightarrow> (case out of
            Ok p \<Rightarrow> (Ok \<lparr>Success = True\<rparr>, t', plog LInfo ''transfer success'' [] (emit (EvGoMonitor p) w2))
          | Fail e \<Rightarrow> (Fail e, t', w2)
          | Panic m \<Rightarrow> (Panic m, t', w2)
          | Blocked \<Rightarrow> (Blocked, t', w2)))"
    by (simp add: Transfer_Start_etcd_unfold [OF assms] wk se split: option.split outcome.split)
  have form: "length (Args c) = 19 \<and> drop 15 (Args c) =
             [''--initial-cluster'',
              strings_Join
                (map (\<lambda>i. ''etcd-'' @ showNat (i + 1) @ ''=http://'' @ ?peers ! i @ '':2380'')
                   [0..<length ?peers]) '','',
              ''--initial-cluster-state'', ''new'']"
    if "etcd_flags ?peers (ServerIndex r) (etcdDataDir w1) = Some (tl (Args c))" for c
  proof -
    from etcd_flags_form [OF that]
    have l: "length (tl (Args c)) = 18" and d: "drop 14 (tl (Args c)) = [''--initial-cluster'',
              strings_Join
                (map (\<lambda>i. ''etcd-'' @ showNat (i + 1) @ ''=http://'' @ ?peers ! i @ '':2380'')
                   [0..<length ?peers]) '','',
              ''--initial-cluster-state'', ''new'']" by simp_all
    from l have "Args c \<noteq> []" by auto
    then obtain a as where "Args c = a # as" by (cases "Args c") auto
    with l d show ?thesis by simp
  qed
  show ?thesis
  proof (cases k)
    case (Some e)
    then show ?thesis by (simp add: T c1)
  next
    case None
    show ?thesis
    proof (cases out)
      case (Ok p)
      with None s2 show ?thesis using form by (auto simp: T c3 split: list.splits)
    qed (use None s2 form in \<open>auto simp: T c2 split: list.splits\<close>)
  qed
qed

theorem etcd_initial_cluster_witness:
  "Operation start_req = Request_Start \<and> Database start_req = Request_zetcd
   \<and> fst (Transfer test_cfg quiet_env NewTransporterServer start_req serving_world)
       = Ok \<lparr>Success = True\<rparr>
   \<and> map_option (\<lambda>c. drop 15 (Args c))
        (cmd (fst (snd (Transfer test_cfg quiet_env NewTransporterServer start_req serving_world))))
       = Some [''--initial-cluster'',
               ''etcd-1=http://10.0.0.1:2380,etcd-2=http://10.0.0.2:2380,etcd-3=http://10.0.0.3:2380'',
               ''--initial-cluster-state'', ''new'']"
proof -
  let ?T = "Transfer test_cfg quiet_env NewTransporterServer start_req serving_world"
  have h: "Operation start_req = Request_Start"
    "Database start_req = Request_etcdv2 \<or> Database start_req = Request_etcdv3
     \<or> Database start_req = Request_zetcd \<or> Database start_req = Request_cetcd"
    by (simp_all add: start_req_def)
  have db: "Database start_req = Request_zetcd" by (simp add: start_req_def)
  have peers: "strings_Split (PeerIPString start_req) ''___'' = [''10.0.0.1'', ''10.0.0.2'', ''10.0.0.3'']"
    by (simp add: start_req_def split3)
  from running_facts(8) obtain c cs where
    cs: "started_cmds (new_events serving_world (snd (snd ?T))) = c # cs"
    by (cases "started_cmds (new_events serving_world (snd (snd ?T)))")
       (auto simp: running_world_def)
  from etcd_initial_cluster [OF h, where ?w0.0 = serving_world and cfg = test_cfg and env = quiet_env
      and ?t0.0 = NewTransporterServer] cs
    running_facts(1)
  have "cmd (fst (snd ?T)) = Some c" and "drop 15 (Args c) =
      [''--initial-cluster'',
       ''etcd-1=http://10.0.0.1:2380,etcd-2=http://10.0.0.2:2380,etcd-3=http://10.0.0.3:2380'',
       ''--initial-cluster-state'', ''new'']"
    by (simp_all add: peers upt3 showNat.simps digit_char_def)
  with h(1) db running_facts(1) show ?thesis by simp
qed

subsection \<open>\<^verbatim>\<open>UploadDir\<close>\<close>

lemma wait_tasks_all_done:
  "cnt + length arrival = num \<Longrightarrow> \<forall>f \<in> set arrival. msg f = Done
   \<Longrightarrow> wait_tasks msg cnt num arrival = (Ok (), map (\<lambda>f. Received f Done) arrival)"
  by (induction arrival arbitrary: cnt) auto

lemma wait_tasks_first_error:
  "cnt + length arrival = num \<Longrightarrow> find (\<lambda>f. msg f \<noteq> Done) arrival = Some f \<Longrightarrow> msg f = Failed e
   \<Longrightarrow> fst (wait_tasks msg cnt num arrival) = Fail e"
proof (induction arrival arbitrary: cnt)
  case Nil
  then show ?case by simp
next
  case (Cons a arrival)
  show ?case
  proof (cases "msg a")
    case Done
    with Cons.prems have "find (\<lambda>f. msg f \<noteq> Done) arrival = Some f" by simp
    from Cons.IH [OF _ this Cons.prems(3), of "cnt + 1"] Cons.prems(1) Done
    show ?thesis by (cases "wait_tasks msg (Suc cnt) num arrival") auto
  next
    case (Failed e')
    with Cons.prems show ?thesis by auto
  qed
qed

lemma UploadDir_reaches_files:
  assumes "NewClient_res env = None" and "bucket_ready env bucket gcs"
  shows "UploadDir env (Some gcs) bucket src dst ct arrival = UploadDir_files env src dst ct arrival"
  using assms by (simp add: UploadDir_def bucket_ready_def split: option.splits)

text \<open>
  Claim C9: once the client and the bucket are there and the files are listed, for every
  order in which the messages of the tasks arrive: if the task of some file fails, the
  call returns the error of the first failed task in the order of arrival, and no
  success; if no task fails, the call returns success after it has received, for each
  file, the message that the file is done.
\<close>

theorem UploadDir_first_error_wins:
  assumes "NewClient_res env = None" and "bucket_ready env bucket gcs"
    and "walkRecursive_res env src = Inr fmap" and "mset arrival = mset fmap"
  shows "((\<exists>f \<in> set fmap. upload_task env ct src dst f \<noteq> Done) \<longrightarrow>
           (\<exists>f e. find (\<lambda>f. upload_task env ct src dst f \<noteq> Done) arrival = Some f
              \<and> upload_task env ct src dst f = Failed e
              \<and> fst (UploadDir env (Some gcs) bucket src dst ct arrival) = Fail e))
    \<and> ((\<forall>f \<in> set fmap. upload_task env ct src dst f = Done) \<longrightarrow>
           UploadDir env (Some gcs) bucket src dst ct arrival
             = (Ok (), map GoTask fmap @ map (\<lambda>f. Received f Done) arrival
                  @ [GcsLog ''finished uploading %q'' [Str src], ClientClose]))"
proof -
  let ?msg = "upload_task env ct src dst"
  have len: "0 + length arrival = length fmap"
    using assms(4) by (metis add_0 size_mset)
  have set: "set arrival = set fmap" using assms(4) by (metis set_mset_mset)
  have U: "UploadDir env (Some gcs) bucket src dst ct arrival =
      (case wait_tasks ?msg 0 (length fmap) arrival of
        (Ok u, evs) \<Rightarrow>
          (Ok (), map GoTask fmap @ evs @ [GcsLog ''finished uploading %q'' [Str src], ClientClose])
      | (Fail err, evs) \<Rightarrow> (Fail err, map GoTask fmap @ evs @ [ClientClose])
      | (Panic m, evs) \<Rightarrow> (Panic m, map GoTask fmap @ evs)
      | (Blocked, evs) \<Rightarrow> (Blocked, map GoTask fmap @ evs))"
    by (simp add: UploadDir_reaches_files [OF assms(1,2)] UploadDir_files_def assms(3))
  have fails: "\<exists>f e. find (\<lambda>f. ?msg f \<noteq> Done) arrival = Some f \<and> ?msg f = Failed e
      \<and> fst (UploadDir env (Some gcs) bucket src dst ct arrival) = Fail e"
    if "\<exists>f \<in> set fmap. ?msg f \<noteq> Done"
  proof -
    from that set obtain f where f: "find (\<lambda>f. ?msg f \<noteq> Done) arrival = Some f"
      by (cases "find (\<lambda>f. ?msg f \<noteq> Done) arrival") (auto simp: find_None_iff)
    then have "?msg f \<noteq> Done" by (auto simp: find_Some_iff)
    then obtain e where e: "?msg f = Failed e" by (cases "?msg f") auto
    from wait_tasks_first_error [OF len f e]
    have "fst (UploadDir env (Some gcs) bucket src dst ct arrival) = Fail e"
      by (cases "wait_tasks ?msg 0 (length fmap) arrival") (simp add: U)
    with f e show ?thesis by blast
  qed
  have succeeds: "UploadDir env (Some gcs) bucket src dst ct arrival
             = (Ok (), map GoTask fmap @ map (\<lambda>f. Received f Done) arrival
                  @ [GcsLog ''finished uploading %q'' [Str src], ClientClose])"
    if "\<forall>f \<in> set fmap. ?msg f = Done"
  proof -
    from that set have "\<forall>f \<in> set arrival. ?msg f = Done" by simp
    from wait_tasks_all_done [OF len this] show ?thesis by (simp add: U)
  qed
  from fails succeeds show ?thesis by blast
qed

theorem UploadDir_first_error_wins_witness:
  "NewClient_res dir_env = None \<and> bucket_ready dir_env ''bucket'' a_storage
   \<and> mset [''/data/f5'', ''/data/f1'', ''/data/f3'', ''/data/f2'', ''/data/f4'']
       = mset [''/data/f1'', ''/data/f2'', ''/data/f3'', ''/data/f4'', ''/data/f5'']
   \<and> upload_task dir_env [] ''/data'' ''backup'' ''/data/f3'' = Failed (ExtError ''write failed'')
   \<and> fst (UploadDir dir_env (Some a_storage) ''bucket'' ''/data'' ''backup'' []
            [''/data/f5'', ''/data/f1'', ''/data/f3'', ''/data/f2'', ''/data/f4''])
       = Fail (ExtError ''write failed'')
   \<and> fst (UploadDir (dir_env\<lparr>writer_Write_res := (\<lambda>p ct bts. None)\<rparr>) (Some a_storage) ''bucket''
            ''/data'' ''backup'' []
            [''/data/f5'', ''/data/f1'', ''/data/f3'', ''/data/f2'', ''/data/f4''])
       = Ok ()"
proof -
  let ?arr = "[''/data/f5'', ''/data/f1'', ''/data/f3'', ''/data/f2'', ''/data/f4'']"
  let ?fmap = "[''/data/f1'', ''/data/f2'', ''/data/f3'', ''/data/f4'', ''/data/f5'']"
  let ?ok = "dir_env\<lparr>writer_Write_res := (\<lambda>p ct bts. None)\<rparr>"
  have h: "NewClient_res dir_env = None" "bucket_ready dir_env ''bucket'' a_storage"
    "walkRecursive_res dir_env ''/data'' = Inr ?fmap" "mset ?arr = mset ?fmap"
    by (simp_all add: dir_env_def bucket_ready_def a_storage_def already_own_def strings_HasPrefix_def)
  have h': "NewClient_res ?ok = None" "bucket_ready ?ok ''bucket'' a_storage"
    "walkRecursive_res ?ok ''/data'' = Inr ?fmap"
    by (simp_all add: dir_env_def bucket_ready_def a_storage_def already_own_def strings_HasPrefix_def)
  have t: "upload_task dir_env [] ''/data'' ''backup'' f =
      (if f = ''/data/f3'' then Failed (ExtError ''write failed'') else Done)" if "f \<in> set ?fmap" for f
    using that
    by (auto simp: upload_task_def dir_env_def strings_Replace_all_def path_eval)
  have t': "\<forall>f \<in> set ?fmap. upload_task ?ok [] ''/data'' ''backup'' f = Done"
    by (simp add: upload_task_def dir_env_def)
  have f3: "find (\<lambda>f. upload_task dir_env [] ''/data'' ''backup'' f \<noteq> Done) ?arr = Some ''/data/f3''"
    by (simp add: t)
  from UploadDir_first_error_wins [OF h, of "[]" "''backup''"]
    UploadDir_first_error_wins [OF h' h(4), of "[]" "''backup''"] h t t' f3
  show ?thesis by auto
qed

end
